theory Spec2Isabelle
  imports Main "HOL-Library.Word" "HOL-Library.Monad_Syntax"
begin

unbundle bit_operations_syntax

section \<open>Data model of proxy-libevent.c\<close>

type_synonym byte = "8 word"

text \<open>
  An evbuffer of the event library is a chain of extents; each extent holds the bytes it
  stores contiguously. The list keeps the chain order, so \<open>concat\<close> is the byte stream.
\<close>

type_synonym evbuffer = "byte list list"

text \<open>A \<open>struct timeval\<close>: seconds and microseconds.\<close>

type_synonym timeval = "nat \<times> nat"

text \<open>
  Modelled from the spec: \<open>struct config\<close> is declared in knock-common.h, which is not
  among the sources. The fields are the ones proxy-libevent.c reads (section 6 of the
  specification lists the same configuration surface). Ports are \<open>uint32_t\<close>, as the
  parameter of \<open>create_pipe\<close> is; \<open>knock_size\<close> is a byte count.
\<close>

record config =
  external_port :: "32 word"
  normal_port :: "32 word"
  hidden_port :: "32 word"
  knock_value :: "byte list"
  knock_size :: nat
  knock_timeout :: timeval
  default_timeout :: timeval
  verbose :: bool

text \<open>The callbacks a bufferevent can carry, and the \<open>void *\<close> argument handed to them.\<close>

datatype readcb = RCB_NULL | RCB_initial_read | RCB_pipe_read

datatype eventcb = ECB_NULL | ECB_initial_error | ECB_pipe_error | ECB_back_connection

datatype cbarg = ARG_NULL | ARG_base | ARG_bev nat | ARG_ctx nat

text \<open>
  \<open>struct otherside\<close>: pointers are addresses in the store below, \<open>None\<close> is \<open>NULL\<close>.
\<close>

record otherside =
  bev :: "nat option"
  pair :: "nat option"
  other_timedout :: bool

text \<open>
  The part of a \<open>struct bufferevent\<close> the program touches. \<open>be_sent\<close> is the log of
  the bytes the library has already written to the socket; \<open>be_port\<close> is the port of the
  address an outbound connection was started to.
\<close>

record bufferevent =
  be_input :: evbuffer
  be_output :: evbuffer
  be_sent :: "byte list"
  be_fd :: int
  be_port :: "16 word option"
  be_nodelay :: bool
  be_read_enabled :: bool
  be_watermark :: "nat \<times> nat"
  be_timeout_read :: "timeval option"
  be_timeout_write :: "timeval option"
  be_readcb :: readcb
  be_eventcb :: eventcb
  be_cbarg :: cbarg

text \<open>
  The heap: live bufferevents and live \<open>struct otherside\<close> records by address. A freed
  address maps to \<open>None\<close>; addresses are handed out in increasing order and never reused.
  \<open>closed_fds\<close> logs the descriptors closed so far.
\<close>

record state =
  bevs :: "nat \<Rightarrow> bufferevent option"
  ctxs :: "nat \<Rightarrow> otherside option"
  next_bev :: nat
  next_ctx :: nat
  closed_fds :: "int list"

section \<open>Constants\<close>

text \<open>\<open>#define MAX_RECV_BUF_DEFAULT 2 << 16\<close>, an \<open>int\<close> expression used as a \<open>size_t\<close>.\<close>

definition MAX_RECV_BUF_DEFAULT :: nat where
  "MAX_RECV_BUF_DEFAULT = unat (push_bit 16 (2 :: 32 word))"

definition SIZE_MAX :: nat where
  "SIZE_MAX = 2 ^ 64 - 1"

text \<open>The event flags of event2/bufferevent.h; the flag word is a \<open>short\<close>.\<close>

definition BEV_EVENT_READING :: "16 word" where "BEV_EVENT_READING = 0x01"
definition BEV_EVENT_WRITING :: "16 word" where "BEV_EVENT_WRITING = 0x02"
definition BEV_EVENT_EOF :: "16 word" where "BEV_EVENT_EOF = 0x10"
definition BEV_EVENT_ERROR :: "16 word" where "BEV_EVENT_ERROR = 0x20"
definition BEV_EVENT_TIMEOUT :: "16 word" where "BEV_EVENT_TIMEOUT = 0x40"
definition BEV_EVENT_CONNECTED :: "16 word" where "BEV_EVENT_CONNECTED = 0x80"

section \<open>The event library: buffers\<close>

definition evbuffer_get_length :: "evbuffer \<Rightarrow> nat" where
  "evbuffer_get_length buf = length (concat buf)"

text \<open>
  \<open>evbuffer_peek(buf, len, NULL, vec, n_vec)\<close>: walks the chain from its first extent
  until \<open>len\<close> bytes are covered, stores the first \<open>n_vec\<close> extents in \<open>vec\<close> and
  returns the number of extents needed. A negative \<open>len\<close> asks for everything.
\<close>

fun peek_loop :: "evbuffer \<Rightarrow> int \<Rightarrow> nat \<Rightarrow> nat \<Rightarrow> int \<Rightarrow> byte list list
    \<Rightarrow> nat \<times> byte list list" where
  "peek_loop [] len n_vec idx len_so_far vec = (idx, vec)"
| "peek_loop (chain # rest) len n_vec idx len_so_far vec =
     (if 0 \<le> len \<and> len \<le> len_so_far then (idx, vec)
      else if idx < n_vec then
        peek_loop rest len n_vec (idx + 1) (len_so_far + int (length chain)) (vec @ [chain])
      else if len < 0 then (idx, vec)
      else peek_loop rest len n_vec (idx + 1) (len_so_far + int (length chain)) vec)"

definition evbuffer_peek :: "evbuffer \<Rightarrow> int \<Rightarrow> nat \<Rightarrow> nat \<times> byte list list" where
  "evbuffer_peek buf len n_vec =
     peek_loop buf
       (if n_vec = 0 \<and> len < 0 then int (evbuffer_get_length buf) else len) n_vec 0 0 []"

text \<open>
  \<open>evbuffer_drain(buf, len)\<close>: removes \<open>len\<close> bytes from the front. Whole extents go
  first, then the front of the extent where the count ends; asking for at least the
  whole content empties the buffer.
\<close>

fun drain_chains :: "evbuffer \<Rightarrow> nat \<Rightarrow> evbuffer" where
  "drain_chains [] remaining = []"
| "drain_chains (chain # rest) remaining =
     (if length chain \<le> remaining then drain_chains rest (remaining - length chain)
      else drop remaining chain # rest)"

definition evbuffer_drain :: "evbuffer \<Rightarrow> nat \<Rightarrow> evbuffer" where
  "evbuffer_drain buf len =
     (if evbuffer_get_length buf = 0 then buf
      else if evbuffer_get_length buf \<le> len then []
      else drain_chains buf len)"

text \<open>
  \<open>evbuffer_add_buffer(outbuf, inbuf)\<close>: moves every extent of \<open>inbuf\<close> to the end of
  \<open>outbuf\<close>; the result is the pair (outbuf, inbuf) afterwards.
\<close>

definition evbuffer_add_buffer :: "evbuffer \<Rightarrow> evbuffer \<Rightarrow> evbuffer \<times> evbuffer" where
  "evbuffer_add_buffer outbuf inbuf =
     (if evbuffer_get_length inbuf = 0 then (outbuf, inbuf)
      else if evbuffer_get_length outbuf = 0 then (inbuf, [])
      else (outbuf @ inbuf, []))"

text \<open>
  \<open>memcmp(s1, s2, n)\<close>: the sign of the first difference among the first \<open>n\<close> bytes.
  Reading past the end of either object is undefined in C: the model has no result there.
\<close>

fun bytes_cmp :: "byte list \<Rightarrow> byte list \<Rightarrow> int" where
  "bytes_cmp (a # as) (b # bs) =
     (if a = b then bytes_cmp as bs else int (unat a) - int (unat b))"
| "bytes_cmp _ _ = 0"

definition memcmp :: "byte list \<Rightarrow> byte list \<Rightarrow> nat \<Rightarrow> int option" where
  "memcmp s1 s2 n =
     (if length s1 < n \<or> length s2 < n then None
      else Some (bytes_cmp (take n s1) (take n s2)))"

section \<open>The event library: bufferevents\<close>

text \<open>
  Every operation dereferences its bufferevent: on a freed address there is no result
  (\<open>None\<close>), which is how a use after free shows in the model.
\<close>

definition upd_bev :: "state \<Rightarrow> nat \<Rightarrow> (bufferevent \<Rightarrow> bufferevent) \<Rightarrow> state option" where
  "upd_bev s b f = do { be \<leftarrow> bevs s b; Some (s\<lparr>bevs := (bevs s)(b \<mapsto> f be)\<rparr>) }"

definition upd_ctx :: "state \<Rightarrow> nat \<Rightarrow> (otherside \<Rightarrow> otherside) \<Rightarrow> state option" where
  "upd_ctx s p f = do { c \<leftarrow> ctxs s p; Some (s\<lparr>ctxs := (ctxs s)(p \<mapsto> f c)\<rparr>) }"

definition new_bufferevent :: "int \<Rightarrow> bufferevent" where
  "new_bufferevent fd =
     \<lparr>be_input = [], be_output = [], be_sent = [], be_fd = fd, be_port = None,
      be_nodelay = False, be_read_enabled = False, be_watermark = (0, 0),
      be_timeout_read = None, be_timeout_write = None,
      be_readcb = RCB_NULL, be_eventcb = ECB_NULL, be_cbarg = ARG_NULL\<rparr>"

definition bufferevent_socket_new :: "state \<Rightarrow> int \<Rightarrow> nat \<times> state" where
  "bufferevent_socket_new s fd =
     (next_bev s,
      s\<lparr>bevs := (bevs s)(next_bev s \<mapsto> new_bufferevent fd), next_bev := Suc (next_bev s)\<rparr>)"

definition bufferevent_setcb :: "state \<Rightarrow> nat \<Rightarrow> readcb \<Rightarrow> eventcb \<Rightarrow> cbarg \<Rightarrow> state option" where
  "bufferevent_setcb s b rcb ecb arg =
     upd_bev s b (\<lambda>be. be\<lparr>be_readcb := rcb, be_eventcb := ecb, be_cbarg := arg\<rparr>)"

definition bufferevent_setwatermark :: "state \<Rightarrow> nat \<Rightarrow> nat \<Rightarrow> nat \<Rightarrow> state option" where
  "bufferevent_setwatermark s b lowmark highmark =
     upd_bev s b (\<lambda>be. be\<lparr>be_watermark := (lowmark, highmark)\<rparr>)"

definition bufferevent_enable :: "state \<Rightarrow> nat \<Rightarrow> state option" where
  "bufferevent_enable s b = upd_bev s b (\<lambda>be. be\<lparr>be_read_enabled := True\<rparr>)"

definition bufferevent_disable :: "state \<Rightarrow> nat \<Rightarrow> state option" where
  "bufferevent_disable s b = upd_bev s b (\<lambda>be. be\<lparr>be_read_enabled := False\<rparr>)"

definition bufferevent_set_timeouts ::
    "state \<Rightarrow> nat \<Rightarrow> timeval option \<Rightarrow> timeval option \<Rightarrow> state option" where
  "bufferevent_set_timeouts s b tr tw =
     upd_bev s b (\<lambda>be. be\<lparr>be_timeout_read := tr, be_timeout_write := tw\<rparr>)"

text \<open>
  \<open>bufferevent_free\<close> with \<open>BEV_OPT_CLOSE_ON_FREE\<close>: the bufferevent is gone and its
  descriptor, when it has one, is closed.
\<close>

definition bufferevent_free :: "state \<Rightarrow> nat \<Rightarrow> state option" where
  "bufferevent_free s b =
     do { be \<leftarrow> bevs s b;
          Some (s\<lparr>bevs := (bevs s)(b := None),
                 closed_fds := (if 0 \<le> be_fd be then be_fd be # closed_fds s
                                else closed_fds s)\<rparr>) }"

text \<open>
  \<open>bufferevent_read_buffer(src, bufferevent_get_output(dst))\<close>: everything in the input
  of \<open>src\<close> moves to the end of the output of \<open>dst\<close>.
\<close>

definition bufferevent_read_buffer :: "state \<Rightarrow> nat \<Rightarrow> nat \<Rightarrow> state option" where
  "bufferevent_read_buffer s src dst =
     do { sb \<leftarrow> bevs s src;
          db \<leftarrow> bevs s dst;
          s1 \<leftarrow> upd_bev s dst
                 (\<lambda>be. be\<lparr>be_output := fst (evbuffer_add_buffer (be_output db) (be_input sb))\<rparr>);
          upd_bev s1 src
                 (\<lambda>be. be\<lparr>be_input := snd (evbuffer_add_buffer (be_output db) (be_input sb))\<rparr>) }"

definition free_ctx :: "state \<Rightarrow> nat \<Rightarrow> state option" where
  "free_ctx s p = do { c \<leftarrow> ctxs s p; Some (s\<lparr>ctxs := (ctxs s)(p := None)\<rparr>) }"

text \<open>A callback argument read as a \<open>struct otherside *\<close> or as a \<open>struct bufferevent *\<close>.\<close>

fun as_otherside :: "cbarg \<Rightarrow> nat option" where
  "as_otherside (ARG_ctx p) = Some p"
| "as_otherside _ = None"

fun as_bufferevent :: "cbarg \<Rightarrow> nat option" where
  "as_bufferevent (ARG_bev b) = Some b"
| "as_bufferevent _ = None"

text \<open>
  \<open>set_tcp_no_delay(bufferevent_getfd(b))\<close>: the socket option is kept with the
  bufferevent that owns the descriptor. A failing \<open>setsockopt\<close> only prints a message.
\<close>

definition set_tcp_no_delay :: "state \<Rightarrow> nat \<Rightarrow> state option" where
  "set_tcp_no_delay s b = upd_bev s b (\<lambda>be. be\<lparr>be_nodelay := True\<rparr>)"

text \<open>\<open>htons\<close> takes a \<open>uint16_t\<close>: the \<open>uint32_t\<close> port is cut to its low 16 bits.\<close>

definition htons :: "32 word \<Rightarrow> 16 word" where
  "htons port = ucast port"

section \<open>The active pipe\<close>

text \<open>
  The callbacks take the heap, the address of their bufferevent and their flags or
  argument, and give the heap they leave. Each \<open>->\<close> of the source reads the record
  from the heap again, so a record that is its own pair would show. There is no result
  (\<open>None\<close>) when a callback follows a \<open>NULL\<close> pointer or touches a freed
  bufferevent or a freed record.
\<close>

definition pipe_read :: "state \<Rightarrow> nat \<Rightarrow> cbarg \<Rightarrow> state option" where
  "pipe_read s b ctx =
     do { con \<leftarrow> as_otherside ctx;
          c \<leftarrow> ctxs s con;
          (case bev c of
             Some _ \<Rightarrow>
               do { p \<leftarrow> pair c;
                    s1 \<leftarrow> upd_ctx s p (\<lambda>x. x\<lparr>other_timedout := False\<rparr>);
                    c1 \<leftarrow> ctxs s1 con;
                    ob \<leftarrow> bev c1;
                    bufferevent_read_buffer s1 b ob }
           | None \<Rightarrow>
               upd_bev s b (\<lambda>be. be\<lparr>be_input := evbuffer_drain (be_input be) SIZE_MAX\<rparr>)) }"

text \<open>
  The first half of \<open>pipe_error\<close>: the timeout branch. The boolean says whether the
  function returned early (the other side did not time out yet).
\<close>

definition pipe_error_timeout :: "state \<Rightarrow> nat \<Rightarrow> nat \<Rightarrow> (state \<times> bool) option" where
  "pipe_error_timeout s b con =
     do { s1 \<leftarrow> bufferevent_enable s b;
          c \<leftarrow> ctxs s1 con;
          (case bev c of
             Some _ \<Rightarrow>
               do { p \<leftarrow> pair c;
                    s2 \<leftarrow> upd_ctx s1 p (\<lambda>x. x\<lparr>other_timedout := True\<rparr>);
                    c2 \<leftarrow> ctxs s2 con;
                    Some (s2, \<not> other_timedout c2) }
           | None \<Rightarrow> Some (s1, False)) }"

text \<open>The second half: free this side, put the other side on its grace period.\<close>

definition pipe_error_close :: "state \<Rightarrow> nat \<Rightarrow> nat \<Rightarrow> state option" where
  "pipe_error_close s b con =
     do { s1 \<leftarrow> bufferevent_free s b;
          c \<leftarrow> ctxs s1 con;
          s2 \<leftarrow> (case bev c of
                   Some ob \<Rightarrow>
                     do { s3 \<leftarrow> bufferevent_set_timeouts s1 ob (Some (1, 0)) (Some (1, 0));
                          s4 \<leftarrow> bufferevent_enable s3 ob;
                          c4 \<leftarrow> ctxs s4 con;
                          p \<leftarrow> pair c4;
                          s5 \<leftarrow> upd_ctx s4 p (\<lambda>x. x\<lparr>pair := None\<rparr>);
                          c5 \<leftarrow> ctxs s5 con;
                          p5 \<leftarrow> pair c5;
                          upd_ctx s5 p5 (\<lambda>x. x\<lparr>bev := None\<rparr>) }
                 | None \<Rightarrow> Some s1);
          free_ctx s2 con }"

definition pipe_error :: "state \<Rightarrow> nat \<Rightarrow> 16 word \<Rightarrow> cbarg \<Rightarrow> state option" where
  "pipe_error s b error ctx =
     do { con \<leftarrow> as_otherside ctx;
          (if error AND BEV_EVENT_TIMEOUT \<noteq> 0 then
             do { (s1, returned) \<leftarrow> pipe_error_timeout s b con;
                  if returned then Some s1 else pipe_error_close s1 b con }
           else pipe_error_close s b con) }"

section \<open>The back connection handshake\<close>

text \<open>
  \<open>create_contexts\<close>: two fresh records; the first points at \<open>backward\<close>, the second
  at \<open>forward\<close>, and each is the other's pair. The result is the pair of addresses;
  the array the source returns them in is freed by \<open>back_connection\<close> and holds
  nothing else.
\<close>

definition create_contexts :: "state \<Rightarrow> nat option \<Rightarrow> nat option \<Rightarrow> (nat \<times> nat) \<times> state" where
  "create_contexts s forward backward =
     (let r0 = next_ctx s; r1 = Suc (next_ctx s) in
      ((r0, r1),
       s\<lparr>ctxs := (ctxs s)
            (r0 \<mapsto> \<lparr>bev = backward, pair = Some r1, other_timedout = False\<rparr>,
             r1 \<mapsto> \<lparr>bev = forward, pair = Some r0, other_timedout = False\<rparr>),
         next_ctx := Suc (Suc (next_ctx s))\<rparr>))"

definition back_connection :: "config \<Rightarrow> state \<Rightarrow> nat \<Rightarrow> 16 word \<Rightarrow> cbarg \<Rightarrow> state option" where
  "back_connection cfg s b events ctx =
     (let other_side = as_bufferevent ctx in
      if events AND BEV_EVENT_CONNECTED \<noteq> 0 then
        (case create_contexts s other_side (Some b) of
           ((ctx0, ctx1), s0) \<Rightarrow>
             do { s1 \<leftarrow> set_tcp_no_delay s0 b;
                  cl \<leftarrow> other_side;
                  s2 \<leftarrow> bufferevent_enable s1 cl;
                  s3 \<leftarrow> bufferevent_read_buffer s2 cl b;
                  s4 \<leftarrow> bufferevent_setcb s3 cl RCB_pipe_read ECB_pipe_error (ARG_ctx ctx0);
                  s5 \<leftarrow> bufferevent_setcb s4 b RCB_pipe_read ECB_pipe_error (ARG_ctx ctx1);
                  s6 \<leftarrow> bufferevent_setwatermark s5 b 0 MAX_RECV_BUF_DEFAULT;
                  s7 \<leftarrow> bufferevent_enable s6 b;
                  s8 \<leftarrow> bufferevent_set_timeouts s7 b (Some (default_timeout cfg)) None;
                  bufferevent_set_timeouts s8 cl (Some (default_timeout cfg)) None })
      else if events AND BEV_EVENT_ERROR \<noteq> 0 then
        do { s1 \<leftarrow> bufferevent_free s b;
             (case other_side of
                Some cl \<Rightarrow> bufferevent_free s1 cl
              | None \<Rightarrow> Some s1) }
      else Some s)"

text \<open>
  \<open>create_pipe\<close>: \<open>rc\<close> is what \<open>bufferevent_socket_connect\<close> returns, negative
  when the connection could not be started; the library runs no callback inside that
  call, the outcome of a started connection comes later as an event. A started connection
  is recorded with the port of its address, 127.0.0.1 being the only host.
\<close>

definition create_pipe :: "int \<Rightarrow> state \<Rightarrow> nat option \<Rightarrow> 32 word \<Rightarrow> state option" where
  "create_pipe rc s other_side port =
     (case bufferevent_socket_new s (- 1) of
        (b, s0) \<Rightarrow>
          do { s1 \<leftarrow> bufferevent_setcb s0 b RCB_NULL ECB_back_connection
                       (case other_side of Some cl \<Rightarrow> ARG_bev cl | None \<Rightarrow> ARG_NULL);
               if rc < 0 then
                 do { s2 \<leftarrow> bufferevent_free s1 b;
                      (case other_side of
                         Some cl \<Rightarrow> bufferevent_free s2 cl
                       | None \<Rightarrow> Some s2) }
               else upd_bev s1 b (\<lambda>be. be\<lparr>be_port := Some (htons port)\<rparr>) })"

section \<open>The initial handshake\<close>

text \<open>
  The routing decision of \<open>initial_read\<close>: the port and the input buffer after the peek,
  the comparison and the drain. \<open>knock_size\<close> is passed to \<open>evbuffer_peek\<close> as a
  signed length; a byte count keeps its value there. \<open>v[0]\<close> is read only when the
  peek has filled it.
\<close>

definition knock_decision :: "config \<Rightarrow> evbuffer \<Rightarrow> (32 word \<times> evbuffer) option" where
  "knock_decision cfg inp =
     (case evbuffer_peek inp (int (knock_size cfg)) 1 of
        (n, v) \<Rightarrow>
          if n = 1 \<and> knock_size cfg \<le> length (v ! 0) then
            do { r \<leftarrow> memcmp (knock_value cfg) (v ! 0) (knock_size cfg);
                 if r = 0 then Some (hidden_port cfg, evbuffer_drain inp (knock_size cfg))
                 else Some (normal_port cfg, inp) }
          else Some (normal_port cfg, inp))"

definition initial_read :: "config \<Rightarrow> int \<Rightarrow> state \<Rightarrow> nat \<Rightarrow> cbarg \<Rightarrow> state option" where
  "initial_read cfg rc s b ctx =
     do { be \<leftarrow> bevs s b;
          (port, inp) \<leftarrow> knock_decision cfg (be_input be);
          s1 \<leftarrow> upd_bev s b (\<lambda>x. x\<lparr>be_input := inp\<rparr>);
          s2 \<leftarrow> bufferevent_setwatermark s1 b 0 MAX_RECV_BUF_DEFAULT;
          s3 \<leftarrow> bufferevent_disable s2 b;
          s4 \<leftarrow> bufferevent_set_timeouts s3 b None None;
          s5 \<leftarrow> bufferevent_setcb s4 b RCB_NULL ECB_pipe_error ARG_NULL;
          create_pipe rc s5 (Some b) port }"

text \<open>The message printed when \<open>verbose\<close> is set leaves the state as it is.\<close>

definition initial_error :: "config \<Rightarrow> int \<Rightarrow> state \<Rightarrow> nat \<Rightarrow> 16 word \<Rightarrow> cbarg \<Rightarrow> state option" where
  "initial_error cfg rc s b error ctx =
     (if error AND BEV_EVENT_TIMEOUT \<noteq> 0 then initial_read cfg rc s b ctx
      else do { s1 \<leftarrow> bufferevent_setcb s b RCB_NULL ECB_NULL ARG_NULL;
                bufferevent_free s1 b })"

text \<open>
  \<open>initial_accept\<close>: \<open>fd\<close> is what \<open>accept\<close> returned, \<open>fd_setsize\<close> the platform's
  \<open>FD_SETSIZE\<close>. A failed \<open>accept\<close> only prints a message.
\<close>

definition initial_accept :: "config \<Rightarrow> int \<Rightarrow> state \<Rightarrow> int \<Rightarrow> state option" where
  "initial_accept cfg fd_setsize s fd =
     (if fd < 0 then Some s
      else if fd > fd_setsize then Some (s\<lparr>closed_fds := fd # closed_fds s\<rparr>)
      else
        (case bufferevent_socket_new s fd of
           (b, s0) \<Rightarrow>
             do { s1 \<leftarrow> bufferevent_setcb s0 b RCB_initial_read ECB_initial_error ARG_base;
                  s2 \<leftarrow> bufferevent_setwatermark s1 b 0 MAX_RECV_BUF_DEFAULT;
                  s3 \<leftarrow> bufferevent_enable s2 b;
                  bufferevent_set_timeouts s3 b (Some (knock_timeout cfg)) None }))"

section \<open>The event loop\<close>

text \<open>
  What the event library does to a bufferevent between callbacks. \<open>Readable b data\<close>:
  the library read \<open>data\<close> (as new extents) into the input of \<open>b\<close> and runs the read
  callback; this only happens while reading is enabled. \<open>Written b n\<close>: the library wrote
  up to \<open>n\<close> bytes of the output to the socket. \<open>Event b flags\<close>: the event callback runs
  with \<open>flags\<close>; an event of the reading side (a read timeout, end of file, a read error)
  first disables reading. No event is delivered to a freed bufferevent. The watermarks
  bound how much the library reads before it waits for the input to be taken; they are
  kept in the bufferevent and not enforced on \<open>data\<close>.
\<close>

datatype event = Readable nat evbuffer | Written nat nat | Event nat "16 word"

fun target :: "event \<Rightarrow> nat" where
  "target (Readable b _) = b"
| "target (Written b _) = b"
| "target (Event b _) = b"

definition run_readcb :: "config \<Rightarrow> int \<Rightarrow> state \<Rightarrow> nat \<Rightarrow> state option" where
  "run_readcb cfg rc s b =
     do { be \<leftarrow> bevs s b;
          (case be_readcb be of
             RCB_NULL \<Rightarrow> Some s
           | RCB_initial_read \<Rightarrow> initial_read cfg rc s b (be_cbarg be)
           | RCB_pipe_read \<Rightarrow> pipe_read s b (be_cbarg be)) }"

definition run_eventcb :: "config \<Rightarrow> int \<Rightarrow> state \<Rightarrow> nat \<Rightarrow> 16 word \<Rightarrow> state option" where
  "run_eventcb cfg rc s b flags =
     do { be \<leftarrow> bevs s b;
          (case be_eventcb be of
             ECB_NULL \<Rightarrow> Some s
           | ECB_initial_error \<Rightarrow> initial_error cfg rc s b flags (be_cbarg be)
           | ECB_pipe_error \<Rightarrow> pipe_error s b flags (be_cbarg be)
           | ECB_back_connection \<Rightarrow> back_connection cfg s b flags (be_cbarg be)) }"

fun dispatch :: "config \<Rightarrow> int \<Rightarrow> state \<Rightarrow> event \<Rightarrow> state option" where
  "dispatch cfg rc s (Readable b data) =
     (case bevs s b of
        None \<Rightarrow> Some s
      | Some be \<Rightarrow>
          if be_read_enabled be then
            do { s1 \<leftarrow> upd_bev s b (\<lambda>x. x\<lparr>be_input := be_input x @ data\<rparr>);
                 run_readcb cfg rc s1 b }
          else Some s)"
| "dispatch cfg rc s (Written b n) =
     (case bevs s b of
        None \<Rightarrow> Some s
      | Some be \<Rightarrow>
          upd_bev s b (\<lambda>x. x\<lparr>be_sent := be_sent x @ take n (concat (be_output x)),
                              be_output := evbuffer_drain (be_output x) n\<rparr>))"
| "dispatch cfg rc s (Event b flags) =
     (case bevs s b of
        None \<Rightarrow> Some s
      | Some be \<Rightarrow>
          do { s1 \<leftarrow> (if flags AND BEV_EVENT_READING \<noteq> 0 then bufferevent_disable s b
                      else Some s);
               run_eventcb cfg rc s1 b flags })"

fun run :: "config \<Rightarrow> int \<Rightarrow> state \<Rightarrow> event list \<Rightarrow> state option" where
  "run cfg rc s [] = Some s"
| "run cfg rc s (e # es) = do { s1 \<leftarrow> dispatch cfg rc s e; run cfg rc s1 es }"

section \<open>Example configuration and states\<close>

text \<open>
  The configuration of the example in section 8 of the specification: a four byte knock
  \<open>DE AD BE EF\<close>, the hidden service on port 2222 and the normal one on port 22.
\<close>

definition example_config :: config where
  "example_config =
     \<lparr>external_port = 443, normal_port = 22, hidden_port = 2222,
      knock_value = [0xDE, 0xAD, 0xBE, 0xEF], knock_size = 4,
      knock_timeout = (2, 0), default_timeout = (30, 0), verbose = False\<rparr>"

text \<open>The heap before any connection was accepted.\<close>

definition start_state :: state where
  "start_state =
     \<lparr>bevs = Map.empty, ctxs = Map.empty, next_bev = 0, next_ctx = 0, closed_fds = []\<rparr>"

text \<open>
  A client accepted on descriptor 5 that has \<open>inp\<close> buffered and waits for the routing
  decision, and the heap that holds just this client at address 0.
\<close>

definition example_client :: "evbuffer \<Rightarrow> bufferevent" where
  "example_client inp =
     \<lparr>be_input = inp, be_output = [], be_sent = [], be_fd = 5, be_port = None,
      be_nodelay = False, be_read_enabled = True, be_watermark = (0, MAX_RECV_BUF_DEFAULT),
      be_timeout_read = Some (2, 0), be_timeout_write = None,
      be_readcb = RCB_initial_read, be_eventcb = ECB_initial_error, be_cbarg = ARG_base\<rparr>"

definition detecting_state :: "evbuffer \<Rightarrow> state" where
  "detecting_state inp =
     \<lparr>bevs = Map.empty(0 \<mapsto> example_client inp), ctxs = Map.empty,
      next_bev = 1, next_ctx = 0, closed_fds = []\<rparr>"

section \<open>The states of a link\<close>

text \<open>
  Observations on the heap. \<open>pipe_end s a ca\<close>: the bufferevent \<open>a\<close> is live and carries
  the callbacks of the active pipe with the record \<open>ca\<close> as their argument.
  \<open>ctx_is s c b p\<close>: the record \<open>c\<close> is live and holds the pointers \<open>b\<close> and \<open>p\<close>.
  \<open>timed_out s c\<close>: the flag \<open>other_timedout\<close> of the record \<open>c\<close>.
\<close>

definition pipe_end :: "state \<Rightarrow> nat \<Rightarrow> nat \<Rightarrow> bool" where
  "pipe_end s a ca =
     (case bevs s a of
        None \<Rightarrow> False
      | Some x \<Rightarrow> be_readcb x = RCB_pipe_read \<and> be_eventcb x = ECB_pipe_error \<and>
                  be_cbarg x = ARG_ctx ca)"

definition reading :: "state \<Rightarrow> nat \<Rightarrow> bool" where
  "reading s a = (case bevs s a of None \<Rightarrow> False | Some x \<Rightarrow> be_read_enabled x)"

definition ctx_is :: "state \<Rightarrow> nat \<Rightarrow> nat option \<Rightarrow> nat option \<Rightarrow> bool" where
  "ctx_is s c b p = (case ctxs s c of None \<Rightarrow> False | Some x \<Rightarrow> bev x = b \<and> pair x = p)"

definition timed_out :: "state \<Rightarrow> nat \<Rightarrow> bool" where
  "timed_out s c = (case ctxs s c of None \<Rightarrow> False | Some x \<Rightarrow> other_timedout x)"

text \<open>
  The bytes handed to the socket of \<open>b\<close> so far, written or still queued, in order, and
  the bytes waiting in the input of \<open>b\<close>.
\<close>

definition stream_out :: "state \<Rightarrow> nat \<Rightarrow> byte list" where
  "stream_out s b = (case bevs s b of None \<Rightarrow> [] | Some x \<Rightarrow> be_sent x @ concat (be_output x))"

definition pending_in :: "state \<Rightarrow> nat \<Rightarrow> byte list" where
  "pending_in s b = (case bevs s b of None \<Rightarrow> [] | Some x \<Rightarrow> concat (be_input x))"

text \<open>
  The three states of the pair made by \<open>back_connection\<close> from the endpoints \<open>a\<close>, \<open>b\<close>
  and their records \<open>ca\<close>, \<open>cb\<close>. Active: both endpoints live and reading, each record
  pointing at the other endpoint and the other record. Draining: \<open>a\<close> lives on with both
  pointers of its record \<open>NULL\<close>, while \<open>b\<close> and \<open>cb\<close> are freed. Closed: all four freed.
\<close>

definition link_active :: "state \<Rightarrow> nat \<Rightarrow> nat \<Rightarrow> nat \<Rightarrow> nat \<Rightarrow> bool" where
  "link_active s a b ca cb =
     (a \<noteq> b \<and> ca \<noteq> cb \<and> pipe_end s a ca \<and> pipe_end s b cb \<and> reading s a \<and> reading s b \<and>
      ctx_is s ca (Some b) (Some cb) \<and> ctx_is s cb (Some a) (Some ca))"

text \<open>
  Joined: as active, whether or not the two endpoints are reading at the moment.
\<close>

definition link_joined :: "state \<Rightarrow> nat \<Rightarrow> nat \<Rightarrow> nat \<Rightarrow> nat \<Rightarrow> bool" where
  "link_joined s a b ca cb =
     (a \<noteq> b \<and> ca \<noteq> cb \<and> pipe_end s a ca \<and> pipe_end s b cb \<and>
      ctx_is s ca (Some b) (Some cb) \<and> ctx_is s cb (Some a) (Some ca))"

definition link_draining :: "state \<Rightarrow> nat \<Rightarrow> nat \<Rightarrow> nat \<Rightarrow> nat \<Rightarrow> bool" where
  "link_draining s a b ca cb =
     (pipe_end s a ca \<and> ctx_is s ca None None \<and> bevs s b = None \<and> ctxs s cb = None)"

definition link_closed :: "state \<Rightarrow> nat \<Rightarrow> nat \<Rightarrow> nat \<Rightarrow> nat \<Rightarrow> bool" where
  "link_closed s a b ca cb =
     (bevs s a = None \<and> bevs s b = None \<and> ctxs s ca = None \<and> ctxs s cb = None)"

definition link_inv :: "state \<Rightarrow> nat \<Rightarrow> nat \<Rightarrow> nat \<Rightarrow> nat \<Rightarrow> bool" where
  "link_inv s a b ca cb =
     (link_active s a b ca cb \<or> link_draining s a b ca cb \<or> link_draining s b a cb ca \<or>
      link_closed s a b ca cb)"

section \<open>What a trace says\<close>

text \<open>
  The two notions the properties of the pipe are stated with, read off a list of events
  alone. \<open>received_on x es\<close>: the bytes that arrived on endpoint \<open>x\<close>, in order.
  \<open>timeout_pending x f es\<close>: whether the last readiness or timeout event of endpoint
  \<open>x\<close> was a timeout, \<open>f\<close> when \<open>x\<close> had neither.
\<close>

fun received_on :: "nat \<Rightarrow> event list \<Rightarrow> byte list" where
  "received_on x [] = []"
| "received_on x (Readable y d # es) = (if y = x then concat d else []) @ received_on x es"
| "received_on x (Written y n # es) = received_on x es"
| "received_on x (Event y fl # es) = received_on x es"

fun timeout_pending :: "nat \<Rightarrow> bool \<Rightarrow> event list \<Rightarrow> bool" where
  "timeout_pending x f [] = f"
| "timeout_pending x f (Readable y d # es) = timeout_pending x (if y = x then False else f) es"
| "timeout_pending x f (Written y n # es) = timeout_pending x f es"
| "timeout_pending x f (Event y fl # es) =
     timeout_pending x (if y = x \<and> fl AND BEV_EVENT_TIMEOUT \<noteq> 0 then True else f) es"

text \<open>Events that carry data only: readiness and writes, no event callback.\<close>

fun is_data :: "event \<Rightarrow> bool" where
  "is_data (Event _ _) = False"
| "is_data _ = True"

text \<open>
  The heap after the routing decision for that client, with \<open>inp\<close> still buffered: the
  connection of the backend bufferevent at address 1 to port 22 is under way.
\<close>

definition connecting_state :: "evbuffer \<Rightarrow> state" where
  "connecting_state inp =
     \<lparr>bevs = Map.empty
        (0 \<mapsto> \<lparr>be_input = inp, be_output = [], be_sent = [], be_fd = 5, be_port = None,
                be_nodelay = False, be_read_enabled = False,
                be_watermark = (0, MAX_RECV_BUF_DEFAULT),
                be_timeout_read = None, be_timeout_write = None,
                be_readcb = RCB_NULL, be_eventcb = ECB_pipe_error, be_cbarg = ARG_NULL\<rparr>,
         1 \<mapsto> \<lparr>be_input = [], be_output = [], be_sent = [], be_fd = - 1,
                be_port = Some 22, be_nodelay = False, be_read_enabled = False,
                be_watermark = (0, 0),
                be_timeout_read = None, be_timeout_write = None,
                be_readcb = RCB_NULL, be_eventcb = ECB_back_connection,
                be_cbarg = ARG_bev 0\<rparr>),
      ctxs = Map.empty, next_bev = 2, next_ctx = 0, closed_fds = []\<rparr>"

text \<open>
  The heap once that connection is reported, with nothing buffered: the client at
  address 0 and the backend at address 1 are the two ends of a pipe; \<open>f\<close> is the flag
  \<open>other_timedout\<close> of the client's record.
\<close>

definition paired_state :: "bool \<Rightarrow> state" where
  "paired_state f =
     \<lparr>bevs = Map.empty
        (0 \<mapsto> \<lparr>be_input = [], be_output = [], be_sent = [], be_fd = 5, be_port = None,
                be_nodelay = False, be_read_enabled = True,
                be_watermark = (0, MAX_RECV_BUF_DEFAULT),
                be_timeout_read = Some (30, 0), be_timeout_write = None,
                be_readcb = RCB_pipe_read, be_eventcb = ECB_pipe_error,
                be_cbarg = ARG_ctx 0\<rparr>,
         1 \<mapsto> \<lparr>be_input = [], be_output = [], be_sent = [], be_fd = - 1,
                be_port = Some 22, be_nodelay = True, be_read_enabled = True,
                be_watermark = (0, MAX_RECV_BUF_DEFAULT),
                be_timeout_read = Some (30, 0), be_timeout_write = None,
                be_readcb = RCB_pipe_read, be_eventcb = ECB_pipe_error,
                be_cbarg = ARG_ctx 1\<rparr>),
      ctxs = Map.empty
        (0 \<mapsto> \<lparr>bev = Some 1, pair = Some 1, other_timedout = f\<rparr>,
         1 \<mapsto> \<lparr>bev = Some 0, pair = Some 0, other_timedout = False\<rparr>),
      next_bev = 2, next_ctx = 2, closed_fds = []\<rparr>"

text \<open>The same pair at a moment when reading is disabled on the backend.\<close>

definition quiet_backend_state :: state where
  "quiet_backend_state =
     \<lparr>bevs = Map.empty
        (0 \<mapsto> \<lparr>be_input = [], be_output = [], be_sent = [], be_fd = 5, be_port = None,
                be_nodelay = False, be_read_enabled = True,
                be_watermark = (0, MAX_RECV_BUF_DEFAULT),
                be_timeout_read = Some (30, 0), be_timeout_write = None,
                be_readcb = RCB_pipe_read, be_eventcb = ECB_pipe_error,
                be_cbarg = ARG_ctx 0\<rparr>,
         1 \<mapsto> \<lparr>be_input = [], be_output = [], be_sent = [], be_fd = - 1,
                be_port = Some 22, be_nodelay = True, be_read_enabled = False,
                be_watermark = (0, MAX_RECV_BUF_DEFAULT),
                be_timeout_read = Some (30, 0), be_timeout_write = None,
                be_readcb = RCB_pipe_read, be_eventcb = ECB_pipe_error,
                be_cbarg = ARG_ctx 1\<rparr>),
      ctxs = Map.empty
        (0 \<mapsto> \<lparr>bev = Some 1, pair = Some 1, other_timedout = False\<rparr>,
         1 \<mapsto> \<lparr>bev = Some 0, pair = Some 0, other_timedout = False\<rparr>),
      next_bev = 2, next_ctx = 2, closed_fds = []\<rparr>"

section \<open>Facts about the buffers\<close>

lemmas prim_defs = upd_bev_def upd_ctx_def bufferevent_setcb_def bufferevent_setwatermark_def
  bufferevent_enable_def bufferevent_disable_def bufferevent_set_timeouts_def
  bufferevent_free_def bufferevent_read_buffer_def free_ctx_def set_tcp_no_delay_def

lemma peek_loop_beyond:
  "1 \<le> idx \<Longrightarrow> 0 \<le> len \<Longrightarrow>
   snd (peek_loop buf len (Suc 0) idx sofar vec) = vec \<and>
   idx \<le> fst (peek_loop buf len (Suc 0) idx sofar vec) \<and>
   (fst (peek_loop buf len (Suc 0) idx sofar vec) = idx \<longleftrightarrow> buf = [] \<or> len \<le> sofar)"
proof (induction buf arbitrary: idx sofar)
  case Nil
  then show ?case by simp
next
  case (Cons chain rest)
  from Cons.IH [of "idx + 1" "sofar + int (length chain)"] Cons.prems
  show ?case by auto
qed

lemma evbuffer_peek_one:
  "evbuffer_peek buf (int k) (Suc 0) =
     (case buf of
        [] \<Rightarrow> (0, [])
      | chain # rest \<Rightarrow>
          if k = 0 then (0, [])
          else (fst (peek_loop rest (int k) (Suc 0) (Suc 0) (int (length chain)) [chain]),
                [chain]))"
proof (cases buf)
  case Nil
  then show ?thesis by (simp add: evbuffer_peek_def)
next
  case (Cons chain rest)
  have "snd (peek_loop rest (int k) (Suc 0) (Suc 0) (int (length chain)) [chain]) = [chain]"
    using peek_loop_beyond [of "Suc 0" "int k" rest "int (length chain)" "[chain]"] by simp
  then show ?thesis
    using Cons by (simp add: evbuffer_peek_def prod_eq_iff)
qed

lemma evbuffer_peek_one_fst:
  "fst (evbuffer_peek (chain # rest) (int k) (Suc 0)) = Suc 0 \<longleftrightarrow>
     0 < k \<and> (rest = [] \<or> k \<le> length chain)"
  using peek_loop_beyond [of "Suc 0" "int k" rest "int (length chain)" "[chain]"]
  by (auto simp: evbuffer_peek_one)

lemma evbuffer_peek_zero:
  "evbuffer_peek buf 0 (Suc 0) = (0, [])"
  using evbuffer_peek_one [of buf 0] by (simp split: list.splits)

lemma bytes_cmp_zero:
  "length xs = length ys \<Longrightarrow> bytes_cmp xs ys = 0 \<longleftrightarrow> xs = ys"
proof (induction xs ys rule: list_induct2)
  case Nil
  then show ?case by simp
next
  case (Cons x xs y ys)
  then show ?case by (auto simp: word_uint_eq_iff)
qed

lemma memcmp_zero:
  "memcmp s1 s2 n = Some r \<Longrightarrow> r = 0 \<longleftrightarrow> take n s1 = take n s2"
  by (auto simp: memcmp_def bytes_cmp_zero split: if_splits)

lemma memcmp_defined:
  "n \<le> length s1 \<Longrightarrow> n \<le> length s2 \<Longrightarrow> \<exists>r. memcmp s1 s2 n = Some r"
  by (simp add: memcmp_def)

lemma drain_chains_concat:
  "concat (drain_chains buf n) = drop n (concat buf)"
  by (induction buf arbitrary: n) auto

lemma evbuffer_drain_concat:
  "concat (evbuffer_drain buf n) = drop n (concat buf)"
proof (cases "concat buf = []")
  case True
  then have "evbuffer_drain buf n = buf"
    by (simp add: evbuffer_drain_def evbuffer_get_length_def)
  with True show ?thesis by (simp del: concat_eq_Nil_conv)
next
  case False
  then show ?thesis
    by (simp add: evbuffer_drain_def evbuffer_get_length_def drain_chains_concat
        del: concat_eq_Nil_conv)
qed

lemma evbuffer_add_buffer_concat:
  "concat (fst (evbuffer_add_buffer outbuf inbuf)) = concat outbuf @ concat inbuf"
  "concat (snd (evbuffer_add_buffer outbuf inbuf)) = []"
  by (simp_all add: evbuffer_add_buffer_def evbuffer_get_length_def)

section \<open>Facts about the routing decision\<close>

lemma knock_decision_cases:
  assumes "knock_size cfg \<le> length (knock_value cfg)"
  shows "knock_decision cfg inp =
     Some (if 0 < knock_size cfg \<and> inp \<noteq> [] \<and> knock_size cfg \<le> length (hd inp) \<and>
              take (knock_size cfg) (hd inp) = take (knock_size cfg) (knock_value cfg)
           then (hidden_port cfg, evbuffer_drain inp (knock_size cfg))
           else (normal_port cfg, inp))"
proof (cases inp)
  case Nil
  then show ?thesis by (simp add: knock_decision_def evbuffer_peek_one)
next
  case (Cons chain rest)
  show ?thesis
  proof (cases "0 < knock_size cfg \<and> knock_size cfg \<le> length chain")
    case True
    then have one: "fst (evbuffer_peek (chain # rest) (int (knock_size cfg)) (Suc 0)) = Suc 0"
      by (simp add: evbuffer_peek_one_fst)
    have v: "snd (evbuffer_peek (chain # rest) (int (knock_size cfg)) (Suc 0)) = [chain]"
      using True by (simp add: evbuffer_peek_one)
    obtain r where r: "memcmp (knock_value cfg) chain (knock_size cfg) = Some r"
      using memcmp_defined [OF assms, of chain] True by blast
    from memcmp_zero [OF r]
    have "r = 0 \<longleftrightarrow> take (knock_size cfg) chain = take (knock_size cfg) (knock_value cfg)"
      by auto
    with one v r True Cons show ?thesis
      by (auto simp: knock_decision_def split: prod.splits)
  next
    case False
    then have "\<not> (fst (evbuffer_peek (chain # rest) (int (knock_size cfg)) (Suc 0)) = Suc 0 \<and>
        knock_size cfg
          \<le> length (snd (evbuffer_peek (chain # rest) (int (knock_size cfg)) (Suc 0)) ! 0))"
      by (auto simp: evbuffer_peek_one)
    with False Cons show ?thesis
      by (auto simp: knock_decision_def split: prod.splits)
  qed
qed

lemma knock_decision_short:
  assumes "inp = [] \<or> length (hd inp) < knock_size cfg \<or> knock_size cfg = 0"
  shows "knock_decision cfg inp = Some (normal_port cfg, inp)"
proof (cases inp)
  case Nil
  then show ?thesis by (simp add: knock_decision_def evbuffer_peek_one)
next
  case (Cons chain rest)
  with assms
  have "\<not> (fst (evbuffer_peek (chain # rest) (int (knock_size cfg)) (Suc 0)) = Suc 0 \<and>
        knock_size cfg
          \<le> length (snd (evbuffer_peek (chain # rest) (int (knock_size cfg)) (Suc 0)) ! 0))"
    by (auto simp: evbuffer_peek_one)
  with Cons show ?thesis
    by (auto simp: knock_decision_def split: prod.splits)
qed

lemma knock_decision_hidden_only:
  assumes "knock_decision cfg inp = Some (port, inp')" "(port, inp') \<noteq> (normal_port cfg, inp)"
  shows "fst (evbuffer_peek inp (int (knock_size cfg)) 1) = 1 \<and> inp \<noteq> [] \<and>
         knock_size cfg \<le> length (hd inp) \<and>
         take (knock_size cfg) (hd inp) = take (knock_size cfg) (knock_value cfg) \<and>
         port = hidden_port cfg \<and> inp' = evbuffer_drain inp (knock_size cfg)"
proof (cases inp)
  case Nil
  with assms show ?thesis by (simp add: knock_decision_def evbuffer_peek_one)
next
  case (Cons chain rest)
  have short: "\<not> (length chain < knock_size cfg \<or> knock_size cfg = 0)"
    using knock_decision_short [of inp cfg] assms Cons by auto
  then have one: "fst (evbuffer_peek (chain # rest) (int (knock_size cfg)) (Suc 0)) = Suc 0"
    by (simp add: evbuffer_peek_one_fst)
  have v: "snd (evbuffer_peek (chain # rest) (int (knock_size cfg)) (Suc 0)) = [chain]"
    using short by (simp add: evbuffer_peek_one)
  from assms Cons one v short
  obtain r where r: "memcmp (knock_value cfg) chain (knock_size cfg) = Some r"
    by (auto simp: knock_decision_def split: prod.splits Option.bind_splits)
  from assms Cons one v short r have "r = 0"
    by (auto simp: knock_decision_def split: prod.splits if_splits)
  with memcmp_zero [OF r]
  have "take (knock_size cfg) chain = take (knock_size cfg) (knock_value cfg)"
    by auto
  with assms Cons one v short r \<open>r = 0\<close> show ?thesis
    by (auto simp: knock_decision_def split: prod.splits)
qed

section \<open>Facts about the handshake\<close>

lemma initial_read_routed:
  assumes "bevs s b = Some be" "b \<noteq> next_bev s" "0 \<le> rc"
    and "knock_decision cfg (be_input be) = Some (port, inp)"
  shows "initial_read cfg rc s b ctx =
     Some (s\<lparr>bevs := (bevs s)
               (b \<mapsto> be\<lparr>be_input := inp, be_watermark := (0, MAX_RECV_BUF_DEFAULT),
                         be_read_enabled := False,
                         be_timeout_read := None, be_timeout_write := None,
                         be_readcb := RCB_NULL, be_eventcb := ECB_pipe_error,
                         be_cbarg := ARG_NULL\<rparr>,
                next_bev s \<mapsto> (new_bufferevent (- 1))
                         \<lparr>be_readcb := RCB_NULL, be_eventcb := ECB_back_connection,
                          be_cbarg := ARG_bev b, be_port := Some (htons port)\<rparr>),
             next_bev := Suc (next_bev s)\<rparr>)"
  using assms
  by (simp add: initial_read_def create_pipe_def bufferevent_socket_new_def prim_defs)

lemma initial_read_connect_failed:
  assumes "bevs s b = Some be" "b \<noteq> next_bev s" "rc < 0"
    and "knock_decision cfg (be_input be) = Some (port, inp)"
  shows "initial_read cfg rc s b ctx =
     Some (s\<lparr>bevs := (bevs s)(b := None, next_bev s := None),
             next_bev := Suc (next_bev s),
             closed_fds := (if 0 \<le> be_fd be then be_fd be # closed_fds s else closed_fds s)\<rparr>)"
  using assms
  by (simp add: initial_read_def create_pipe_def bufferevent_socket_new_def prim_defs
      new_bufferevent_def fun_upd_twist)

lemma back_connection_connected:
  assumes "cl \<noteq> bk" "bevs s cl = Some c" "bevs s bk = Some k"
    and "events AND BEV_EVENT_CONNECTED \<noteq> 0"
  shows "back_connection cfg s bk events (ARG_bev cl) =
     Some (s\<lparr>ctxs := (ctxs s)
               (next_ctx s \<mapsto>
                  \<lparr>bev = Some bk, pair = Some (Suc (next_ctx s)), other_timedout = False\<rparr>,
                Suc (next_ctx s) \<mapsto>
                  \<lparr>bev = Some cl, pair = Some (next_ctx s), other_timedout = False\<rparr>),
             next_ctx := Suc (Suc (next_ctx s)),
             bevs := (bevs s)
               (bk \<mapsto> k\<lparr>be_nodelay := True,
                         be_output := fst (evbuffer_add_buffer (be_output k) (be_input c)),
                         be_readcb := RCB_pipe_read, be_eventcb := ECB_pipe_error,
                         be_cbarg := ARG_ctx (Suc (next_ctx s)),
                         be_watermark := (0, MAX_RECV_BUF_DEFAULT),
                         be_read_enabled := True,
                         be_timeout_read := Some (default_timeout cfg),
                         be_timeout_write := None\<rparr>,
                cl \<mapsto> c\<lparr>be_read_enabled := True,
                         be_input := snd (evbuffer_add_buffer (be_output k) (be_input c)),
                         be_readcb := RCB_pipe_read, be_eventcb := ECB_pipe_error,
                         be_cbarg := ARG_ctx (next_ctx s),
                         be_timeout_read := Some (default_timeout cfg),
                         be_timeout_write := None\<rparr>)\<rparr>)"
  using assms
  by (simp add: back_connection_def create_contexts_def Let_def prim_defs fun_upd_twist)

lemma initial_accept_cases:
  "initial_accept cfg fd_setsize s fd =
     (if fd < 0 then Some s
      else if fd_setsize < fd then Some (s\<lparr>closed_fds := fd # closed_fds s\<rparr>)
      else Some (s\<lparr>bevs := (bevs s)
                   (next_bev s \<mapsto>
                      \<lparr>be_input = [], be_output = [], be_sent = [], be_fd = fd,
                       be_port = None, be_nodelay = False, be_read_enabled = True,
                       be_watermark = (0, 131072),
                       be_timeout_read = Some (knock_timeout cfg), be_timeout_write = None,
                       be_readcb = RCB_initial_read, be_eventcb = ECB_initial_error,
                       be_cbarg = ARG_base\<rparr>),
                 next_bev := Suc (next_bev s)\<rparr>))"
  by (simp add: initial_accept_def bufferevent_socket_new_def prim_defs new_bufferevent_def
      MAX_RECV_BUF_DEFAULT_def)

lemma initial_read_same_buffer:
  assumes "bevs s b = Some be"
    and "be' = be\<lparr>be_read_enabled := False\<rparr> \<or> be' = be"
  shows "initial_read cfg rc (s\<lparr>bevs := (bevs s)(b \<mapsto> be')\<rparr>) b ctx = initial_read cfg rc s b ctx"
proof (cases "knock_decision cfg (be_input be)")
  case None
  with assms show ?thesis by (auto simp: initial_read_def)
next
  case (Some r)
  with assms show ?thesis
    by (cases r)
      (auto simp: initial_read_def create_pipe_def bufferevent_socket_new_def prim_defs)
qed

text \<open>No event reaches a freed bufferevent.\<close>

lemma dispatch_freed:
  "bevs s (target e) = None \<Longrightarrow> dispatch cfg rc s e = Some s"
  by (cases e) simp_all

lemma run_freed:
  "\<forall>e\<in>set es. bevs s (target e) = None \<Longrightarrow> run cfg rc s es = Some s"
  by (induction es) (simp_all add: dispatch_freed)

section \<open>Facts about the pipe\<close>

lemma pipe_read_active:
  assumes "a \<noteq> b" "ca \<noteq> cb"
    and "bevs s a = Some ba" "bevs s b = Some bb"
    and "ctxs s ca = Some xa" "ctxs s cb = Some xb"
    and "bev xa = Some b" "pair xa = Some cb"
  shows "pipe_read s a (ARG_ctx ca) =
     Some (s\<lparr>ctxs := (ctxs s)(cb \<mapsto> xb\<lparr>other_timedout := False\<rparr>),
             bevs := (bevs s)
               (b \<mapsto> bb\<lparr>be_output := fst (evbuffer_add_buffer (be_output bb) (be_input ba))\<rparr>,
                a \<mapsto> ba\<lparr>be_input := snd (evbuffer_add_buffer (be_output bb) (be_input ba))\<rparr>)\<rparr>)"
  using assms by (simp add: pipe_read_def prim_defs)

lemma pipe_read_gone:
  assumes "bevs s a = Some ba" "ctxs s ca = Some xa" "bev xa = None"
  shows "pipe_read s a (ARG_ctx ca) =
     Some (s\<lparr>bevs := (bevs s)(a \<mapsto> ba\<lparr>be_input := evbuffer_drain (be_input ba) SIZE_MAX\<rparr>)\<rparr>)"
  using assms by (simp add: pipe_read_def prim_defs)

lemma pipe_error_timeout_first:
  assumes "a \<noteq> b" "ca \<noteq> cb"
    and "bevs s a = Some ba"
    and "ctxs s ca = Some xa" "ctxs s cb = Some xb"
    and "bev xa = Some b" "pair xa = Some cb"
    and "error AND BEV_EVENT_TIMEOUT \<noteq> 0" "\<not> other_timedout xa"
  shows "pipe_error s a error (ARG_ctx ca) =
     Some (s\<lparr>bevs := (bevs s)(a \<mapsto> ba\<lparr>be_read_enabled := True\<rparr>),
             ctxs := (ctxs s)(cb \<mapsto> xb\<lparr>other_timedout := True\<rparr>)\<rparr>)"
  using assms by (simp add: pipe_error_def pipe_error_timeout_def prim_defs)

lemma pipe_error_close_active:
  assumes "a \<noteq> b" "ca \<noteq> cb"
    and "bevs s a = Some ba" "bevs s b = Some bb"
    and "ctxs s ca = Some xa" "ctxs s cb = Some xb"
    and "bev xa = Some b" "pair xa = Some cb"
  shows "pipe_error_close s a ca =
     Some (s\<lparr>bevs := (bevs s)
               (a := None,
                b \<mapsto> bb\<lparr>be_timeout_read := Some (1, 0), be_timeout_write := Some (1, 0),
                         be_read_enabled := True\<rparr>),
             closed_fds := (if 0 \<le> be_fd ba then be_fd ba # closed_fds s else closed_fds s),
             ctxs := (ctxs s)(cb \<mapsto> xb\<lparr>pair := None, bev := None\<rparr>, ca := None)\<rparr>)"
  using assms by (simp add: pipe_error_close_def prim_defs)

lemma pipe_error_close_gone:
  assumes "bevs s a = Some ba" "ctxs s ca = Some xa" "bev xa = None"
  shows "pipe_error_close s a ca =
     Some (s\<lparr>bevs := (bevs s)(a := None),
             closed_fds := (if 0 \<le> be_fd ba then be_fd ba # closed_fds s else closed_fds s),
             ctxs := (ctxs s)(ca := None)\<rparr>)"
  using assms by (simp add: pipe_error_close_def prim_defs)

lemma pipe_error_second_timeout:
  assumes "a \<noteq> b" "ca \<noteq> cb"
    and "bevs s a = Some ba" "bevs s b = Some bb"
    and "ctxs s ca = Some xa" "ctxs s cb = Some xb"
    and "bev xa = Some b" "pair xa = Some cb"
    and "error AND BEV_EVENT_TIMEOUT \<noteq> 0" "other_timedout xa"
  shows "pipe_error s a error (ARG_ctx ca) =
     Some (s\<lparr>bevs := (bevs s)
               (a := None,
                b \<mapsto> bb\<lparr>be_timeout_read := Some (1, 0), be_timeout_write := Some (1, 0),
                         be_read_enabled := True\<rparr>),
             closed_fds := (if 0 \<le> be_fd ba then be_fd ba # closed_fds s else closed_fds s),
             ctxs := (ctxs s)
               (cb \<mapsto> xb\<lparr>other_timedout := True, pair := None, bev := None\<rparr>, ca := None)\<rparr>)"
  using assms
  by (simp add: pipe_error_def pipe_error_timeout_def pipe_error_close_def prim_defs)

lemma link_activeE:
  assumes "link_active s a b ca cb"
  obtains xa xb ya yb where
    "a \<noteq> b" "ca \<noteq> cb" "bevs s a = Some xa" "bevs s b = Some xb"
    "ctxs s ca = Some ya" "ctxs s cb = Some yb"
    "be_readcb xa = RCB_pipe_read" "be_eventcb xa = ECB_pipe_error" "be_cbarg xa = ARG_ctx ca"
    "be_read_enabled xa"
    "be_readcb xb = RCB_pipe_read" "be_eventcb xb = ECB_pipe_error" "be_cbarg xb = ARG_ctx cb"
    "be_read_enabled xb"
    "bev ya = Some b" "pair ya = Some cb" "bev yb = Some a" "pair yb = Some ca"
  using assms
  by (auto simp: link_active_def pipe_end_def reading_def ctx_is_def split: option.splits)

lemma link_drainingE:
  assumes "link_draining s a b ca cb"
  obtains xa ya where
    "bevs s a = Some xa" "ctxs s ca = Some ya" "bevs s b = None" "ctxs s cb = None"
    "be_readcb xa = RCB_pipe_read" "be_eventcb xa = ECB_pipe_error" "be_cbarg xa = ARG_ctx ca"
    "bev ya = None" "pair ya = None"
  using assms
  by (auto simp: link_draining_def pipe_end_def ctx_is_def split: option.splits)

lemma link_active_sym:
  "link_active s a b ca cb \<Longrightarrow> link_active s b a cb ca"
  by (auto simp: link_active_def)

lemma link_inv_sym:
  "link_inv s a b ca cb \<Longrightarrow> link_inv s b a cb ca"
  by (auto simp: link_inv_def link_closed_def dest: link_active_sym)

lemmas obs_defs = link_active_def link_draining_def link_closed_def pipe_end_def reading_def
  ctx_is_def timed_out_def stream_out_def pending_in_def

lemma active_readable:
  assumes "link_active s a b ca cb"
  shows "\<exists>s'. dispatch cfg rc s (Readable a data) = Some s' \<and> link_active s' a b ca cb \<and>
           \<not> timed_out s' cb \<and> timed_out s' ca = timed_out s ca \<and>
           stream_out s' b = stream_out s b @ pending_in s a @ concat data \<and>
           stream_out s' a = stream_out s a \<and>
           pending_in s' a = [] \<and> pending_in s' b = pending_in s b"
proof -
  from assms obtain xa xb ya yb where h:
    "a \<noteq> b" "ca \<noteq> cb" "bevs s a = Some xa" "bevs s b = Some xb"
    "ctxs s ca = Some ya" "ctxs s cb = Some yb"
    "be_readcb xa = RCB_pipe_read" "be_eventcb xa = ECB_pipe_error" "be_cbarg xa = ARG_ctx ca"
    "be_read_enabled xa"
    "be_readcb xb = RCB_pipe_read" "be_eventcb xb = ECB_pipe_error" "be_cbarg xb = ARG_ctx cb"
    "be_read_enabled xb"
    "bev ya = Some b" "pair ya = Some cb" "bev yb = Some a" "pair yb = Some ca"
    by (rule link_activeE)
  let ?s1 = "s\<lparr>bevs := (bevs s)(a \<mapsto> xa\<lparr>be_input := be_input xa @ data\<rparr>)\<rparr>"
  have s1: "bevs ?s1 a = Some (xa\<lparr>be_input := be_input xa @ data\<rparr>)" "bevs ?s1 b = Some xb"
    "ctxs ?s1 ca = Some ya" "ctxs ?s1 cb = Some yb"
    using h by simp_all
  note r = pipe_read_active [OF h(1,2) s1 h(15,16)]
  have d: "dispatch cfg rc s (Readable a data) = pipe_read ?s1 a (ARG_ctx ca)"
    using h by (simp add: upd_bev_def run_readcb_def)
  show ?thesis
    unfolding d r using h
    by (simp add: obs_defs evbuffer_add_buffer_concat)
qed

lemma active_written:
  assumes "link_active s a b ca cb"
  shows "\<exists>s'. dispatch cfg rc s (Written a n) = Some s' \<and> link_active s' a b ca cb \<and>
           timed_out s' cb = timed_out s cb \<and> timed_out s' ca = timed_out s ca \<and>
           stream_out s' b = stream_out s b \<and> stream_out s' a = stream_out s a \<and>
           pending_in s' a = pending_in s a \<and> pending_in s' b = pending_in s b"
proof -
  from assms obtain xa xb ya yb where h:
    "a \<noteq> b" "ca \<noteq> cb" "bevs s a = Some xa" "bevs s b = Some xb"
    "ctxs s ca = Some ya" "ctxs s cb = Some yb"
    "be_readcb xa = RCB_pipe_read" "be_eventcb xa = ECB_pipe_error" "be_cbarg xa = ARG_ctx ca"
    "be_read_enabled xa"
    "be_readcb xb = RCB_pipe_read" "be_eventcb xb = ECB_pipe_error" "be_cbarg xb = ARG_ctx cb"
    "be_read_enabled xb"
    "bev ya = Some b" "pair ya = Some cb" "bev yb = Some a" "pair yb = Some ca"
    by (rule link_activeE)
  show ?thesis
    using h by (simp add: upd_bev_def obs_defs evbuffer_drain_concat)
qed

lemma active_timeout_first:
  assumes "link_active s a b ca cb" "error AND BEV_EVENT_TIMEOUT \<noteq> 0" "\<not> timed_out s ca"
  shows "\<exists>y. ctxs s cb = Some y \<and>
           dispatch cfg rc s (Event a error) =
             Some (s\<lparr>ctxs := (ctxs s)(cb \<mapsto> y\<lparr>other_timedout := True\<rparr>)\<rparr>) \<and>
           link_active (s\<lparr>ctxs := (ctxs s)(cb \<mapsto> y\<lparr>other_timedout := True\<rparr>)\<rparr>) a b ca cb"
proof -
  from assms(1) obtain xa xb ya yb where h:
    "a \<noteq> b" "ca \<noteq> cb" "bevs s a = Some xa" "bevs s b = Some xb"
    "ctxs s ca = Some ya" "ctxs s cb = Some yb"
    "be_readcb xa = RCB_pipe_read" "be_eventcb xa = ECB_pipe_error" "be_cbarg xa = ARG_ctx ca"
    "be_read_enabled xa"
    "be_readcb xb = RCB_pipe_read" "be_eventcb xb = ECB_pipe_error" "be_cbarg xb = ARG_ctx cb"
    "be_read_enabled xb"
    "bev ya = Some b" "pair ya = Some cb" "bev yb = Some a" "pair yb = Some ca"
    by (rule link_activeE)
  from assms(3) h have nt: "\<not> other_timedout ya" by (simp add: timed_out_def)
  have same: "xa\<lparr>be_read_enabled := True\<rparr> = xa" using h(10) by simp
  have idem: "(bevs s)(a \<mapsto> xa) = bevs s" using h(3) by (simp add: fun_upd_idem)
  let ?s2 = "s\<lparr>bevs := (bevs s)(a \<mapsto> xa\<lparr>be_read_enabled := False\<rparr>)\<rparr>"
  have e1: "pipe_error s a error (ARG_ctx ca) =
      Some (s\<lparr>ctxs := (ctxs s)(cb \<mapsto> yb\<lparr>other_timedout := True\<rparr>)\<rparr>)"
    unfolding pipe_error_timeout_first [OF h(1,2) h(3) h(5,6) h(15,16) assms(2) nt]
    by (simp add: same idem)
  have s2: "bevs ?s2 a = Some (xa\<lparr>be_read_enabled := False\<rparr>)"
    "ctxs ?s2 ca = Some ya" "ctxs ?s2 cb = Some yb"
    using h by simp_all
  have e2: "pipe_error ?s2 a error (ARG_ctx ca) =
      Some (s\<lparr>ctxs := (ctxs s)(cb \<mapsto> yb\<lparr>other_timedout := True\<rparr>)\<rparr>)"
    unfolding pipe_error_timeout_first [OF h(1,2) s2 h(15,16) assms(2) nt]
    by (simp add: same idem)
  have d: "dispatch cfg rc s (Event a error) =
      Some (s\<lparr>ctxs := (ctxs s)(cb \<mapsto> yb\<lparr>other_timedout := True\<rparr>)\<rparr>)"
  proof (cases "error AND BEV_EVENT_READING \<noteq> 0")
    case True
    then have "dispatch cfg rc s (Event a error) = pipe_error ?s2 a error (ARG_ctx ca)"
      using h by (simp add: run_eventcb_def bufferevent_disable_def upd_bev_def)
    then show ?thesis by (simp only: e2)
  next
    case False
    then have "dispatch cfg rc s (Event a error) = pipe_error s a error (ARG_ctx ca)"
      using h by (simp add: run_eventcb_def)
    then show ?thesis by (simp only: e1)
  qed
  have "link_active (s\<lparr>ctxs := (ctxs s)(cb \<mapsto> yb\<lparr>other_timedout := True\<rparr>)\<rparr>) a b ca cb"
    using h by (simp add: obs_defs)
  with d h(6) show ?thesis by blast
qed

lemma active_close:
  assumes "link_active s a b ca cb" "error AND BEV_EVENT_TIMEOUT = 0 \<or> timed_out s ca"
  shows "\<exists>s' x. dispatch cfg rc s (Event a error) = Some s' \<and> link_draining s' b a cb ca \<and>
           bevs s b = Some x \<and>
           bevs s' b = Some (x\<lparr>be_timeout_read := Some (1, 0), be_timeout_write := Some (1, 0),
                               be_read_enabled := True\<rparr>)"
proof -
  from assms(1) obtain xa xb ya yb where h:
    "a \<noteq> b" "ca \<noteq> cb" "bevs s a = Some xa" "bevs s b = Some xb"
    "ctxs s ca = Some ya" "ctxs s cb = Some yb"
    "be_readcb xa = RCB_pipe_read" "be_eventcb xa = ECB_pipe_error" "be_cbarg xa = ARG_ctx ca"
    "be_read_enabled xa"
    "be_readcb xb = RCB_pipe_read" "be_eventcb xb = ECB_pipe_error" "be_cbarg xb = ARG_ctx cb"
    "be_read_enabled xb"
    "bev ya = Some b" "pair ya = Some cb" "bev yb = Some a" "pair yb = Some ca"
    by (rule link_activeE)
  from assms(2) h have c: "error AND BEV_EVENT_TIMEOUT = 0 \<or> other_timedout ya"
    by (simp add: timed_out_def)
  have e: "\<exists>s''. pipe_error s' a error (ARG_ctx ca) = Some s'' \<and> link_draining s'' b a cb ca \<and>
      bevs s'' b = Some (xb\<lparr>be_timeout_read := Some (1, 0), be_timeout_write := Some (1, 0),
                               be_read_enabled := True\<rparr>)"
    if "s' = s \<or> s' = s\<lparr>bevs := (bevs s)(a \<mapsto> xa\<lparr>be_read_enabled := False\<rparr>)\<rparr>" for s'
  proof -
    from that h obtain x' where s': "bevs s' a = Some x'" "bevs s' b = Some xb"
      "ctxs s' ca = Some ya" "ctxs s' cb = Some yb"
      by auto
    show ?thesis
    proof (cases "error AND BEV_EVENT_TIMEOUT = 0")
      case True
      then have "pipe_error s' a error (ARG_ctx ca) = pipe_error_close s' a ca"
        by (simp add: pipe_error_def)
      then show ?thesis
        unfolding pipe_error_close_active [OF h(1,2) s' h(15,16)]
        using h by (simp add: obs_defs)
    next
      case False
      with c have "other_timedout ya" by simp
      from pipe_error_second_timeout [OF h(1,2) s' h(15,16) False this]
      show ?thesis using h by (simp add: obs_defs)
    qed
  qed
  have "\<exists>s''. dispatch cfg rc s (Event a error) = Some s'' \<and> link_draining s'' b a cb ca \<and>
      bevs s'' b = Some (xb\<lparr>be_timeout_read := Some (1, 0), be_timeout_write := Some (1, 0),
                               be_read_enabled := True\<rparr>)"
    using h e by (simp add: run_eventcb_def bufferevent_disable_def upd_bev_def)
  with h(4) show ?thesis by blast
qed

lemma draining_readable:
  assumes "link_draining s a b ca cb"
  shows "\<exists>s'. dispatch cfg rc s (Readable a data) = Some s' \<and> link_draining s' a b ca cb"
proof -
  from assms obtain xa ya where h:
    "bevs s a = Some xa" "ctxs s ca = Some ya" "bevs s b = None" "ctxs s cb = None"
    "be_readcb xa = RCB_pipe_read" "be_eventcb xa = ECB_pipe_error" "be_cbarg xa = ARG_ctx ca"
    "bev ya = None" "pair ya = None"
    by (rule link_drainingE)
  from h have ab: "a \<noteq> b" by auto
  let ?s1 = "s\<lparr>bevs := (bevs s)(a \<mapsto> xa\<lparr>be_input := be_input xa @ data\<rparr>)\<rparr>"
  have s1: "bevs ?s1 a = Some (xa\<lparr>be_input := be_input xa @ data\<rparr>)" "ctxs ?s1 ca = Some ya"
    using h by simp_all
  note r = pipe_read_gone [OF s1 h(8)]
  show ?thesis
  proof (cases "be_read_enabled xa")
    case True
    then have "dispatch cfg rc s (Readable a data) = pipe_read ?s1 a (ARG_ctx ca)"
      using h by (simp add: upd_bev_def run_readcb_def)
    then show ?thesis
      unfolding r using h ab by (simp add: obs_defs)
  next
    case False
    then have "dispatch cfg rc s (Readable a data) = Some s" using h by simp
    with assms show ?thesis by simp
  qed
qed

lemma draining_written:
  assumes "link_draining s a b ca cb"
  shows "\<exists>s'. dispatch cfg rc s (Written a n) = Some s' \<and> link_draining s' a b ca cb"
proof -
  from assms obtain xa ya where h:
    "bevs s a = Some xa" "ctxs s ca = Some ya" "bevs s b = None" "ctxs s cb = None"
    "be_readcb xa = RCB_pipe_read" "be_eventcb xa = ECB_pipe_error" "be_cbarg xa = ARG_ctx ca"
    "bev ya = None" "pair ya = None"
    by (rule link_drainingE)
  from h have ab: "a \<noteq> b" by auto
  show ?thesis using h ab by (simp add: upd_bev_def obs_defs)
qed

lemma draining_event:
  assumes "link_draining s a b ca cb"
  shows "\<exists>s'. dispatch cfg rc s (Event a flags) = Some s' \<and> link_closed s' a b ca cb"
proof -
  from assms obtain xa ya where h:
    "bevs s a = Some xa" "ctxs s ca = Some ya" "bevs s b = None" "ctxs s cb = None"
    "be_readcb xa = RCB_pipe_read" "be_eventcb xa = ECB_pipe_error" "be_cbarg xa = ARG_ctx ca"
    "bev ya = None" "pair ya = None"
    by (rule link_drainingE)
  from h have ab: "a \<noteq> b" by auto
  from h have cab: "ca \<noteq> cb" by auto
  have e: "\<exists>s''. pipe_error s' a flags (ARG_ctx ca) = Some s'' \<and> link_closed s'' a b ca cb"
    if "s' = s \<or> s' = s\<lparr>bevs := (bevs s)(a \<mapsto> xa\<lparr>be_read_enabled := False\<rparr>)\<rparr>" for s'
  proof -
    from that h ab obtain x' where s': "bevs s' a = Some x'" "ctxs s' ca = Some ya"
      "bevs s' b = None" "ctxs s' cb = None"
      by auto
    note c = pipe_error_close_gone [OF s'(1,2) h(8)]
    have "pipe_error s' a flags (ARG_ctx ca) = pipe_error_close s' a ca"
      using s' h(8) c
      by (auto simp: pipe_error_def pipe_error_timeout_def bufferevent_enable_def upd_bev_def
          pipe_error_close_def bufferevent_free_def free_ctx_def)
    then show ?thesis
      unfolding c using s' ab cab by (simp add: link_closed_def)
  qed
  show ?thesis
    using h e by (simp add: run_eventcb_def bufferevent_disable_def upd_bev_def)
qed

lemma link_draining_not_active:
  "link_draining s a b ca cb \<Longrightarrow> \<not> link_active s a b ca cb \<and> \<not> link_active s b a cb ca"
  by (auto simp: link_draining_def link_active_def pipe_end_def)

lemma link_closed_not_active:
  "link_closed s a b ca cb \<Longrightarrow> \<not> link_active s a b ca cb"
  by (auto simp: link_closed_def link_active_def pipe_end_def)

lemma timeout_pending_Cons:
  "timeout_pending x f (e # es) = timeout_pending x (timeout_pending x f [e]) es"
  by (cases e) simp_all

lemma received_on_Cons:
  "received_on x (e # es) = received_on x [e] @ received_on x es"
  by (cases e) simp_all

text \<open>One event on endpoint \<open>a\<close> of an active link: what it leaves.\<close>

lemma active_step:
  assumes "link_active s a b ca cb" "target e = a"
  shows "\<exists>s'. dispatch cfg rc s e = Some s' \<and>
           (link_active s' a b ca cb \<or> link_draining s' b a cb ca) \<and>
           (link_active s' a b ca cb \<longrightarrow>
              timed_out s' cb = timeout_pending a (timed_out s cb) [e] \<and>
              timed_out s' ca = timed_out s ca) \<and>
           (is_data e \<longrightarrow>
              link_active s' a b ca cb \<and>
              stream_out s' b @ pending_in s' a
                = stream_out s b @ pending_in s a @ received_on a [e] \<and>
              stream_out s' a = stream_out s a \<and> pending_in s' b = pending_in s b)"
proof (cases e)
  case (Readable x data)
  with assms(2) have e: "e = Readable a data" by simp
  from active_readable [OF assms(1), of cfg rc data]
  show ?thesis unfolding e by auto
next
  case (Written x n)
  with assms(2) have e: "e = Written a n" by simp
  from active_written [OF assms(1), of cfg rc n]
  show ?thesis unfolding e by auto
next
  case (Event x flags)
  with assms(2) have e: "e = Event a flags" by simp
  show ?thesis
  proof (cases "flags AND BEV_EVENT_TIMEOUT \<noteq> 0 \<and> \<not> timed_out s ca")
    case True
    from assms(1) have neq: "ca \<noteq> cb" by (simp add: link_active_def)
    from active_timeout_first [OF assms(1), of flags cfg rc] True
    obtain y where y: "ctxs s cb = Some y"
      "dispatch cfg rc s (Event a flags) =
         Some (s\<lparr>ctxs := (ctxs s)(cb \<mapsto> y\<lparr>other_timedout := True\<rparr>)\<rparr>)"
      "link_active (s\<lparr>ctxs := (ctxs s)(cb \<mapsto> y\<lparr>other_timedout := True\<rparr>)\<rparr>) a b ca cb"
      by blast
    show ?thesis
      unfolding e y(2) using y(3) True neq by (simp add: timed_out_def)
  next
    case False
    then have "flags AND BEV_EVENT_TIMEOUT = 0 \<or> timed_out s ca" by auto
    from active_close [OF assms(1) this, of cfg rc]
    obtain s' where s': "dispatch cfg rc s (Event a flags) = Some s'"
      "link_draining s' b a cb ca"
      by blast
    from link_draining_not_active [OF s'(2)] s' show ?thesis
      unfolding e by simp
  qed
qed

lemma draining_step:
  assumes "link_draining s a b ca cb" "target e = a"
  shows "\<exists>s'. dispatch cfg rc s e = Some s' \<and>
           (link_draining s' a b ca cb \<or> link_closed s' a b ca cb)"
proof (cases e)
  case (Readable x data)
  with assms(2) have e: "e = Readable a data" by simp
  from draining_readable [OF assms(1), of cfg rc data] show ?thesis unfolding e by blast
next
  case (Written x n)
  with assms(2) have e: "e = Written a n" by simp
  from draining_written [OF assms(1), of cfg rc n] show ?thesis unfolding e by blast
next
  case (Event x flags)
  with assms(2) have e: "e = Event a flags" by simp
  from draining_event [OF assms(1), of cfg rc flags] show ?thesis unfolding e by blast
qed

lemma inv_step_left:
  assumes "link_inv s a b ca cb" "target e = a"
  shows "\<exists>s'. dispatch cfg rc s e = Some s' \<and> link_inv s' a b ca cb \<and>
           (\<not> link_active s a b ca cb \<longrightarrow> \<not> link_active s' a b ca cb)"
proof -
  from assms(1) consider
    (active) "link_active s a b ca cb"
    | (drain_a) "link_draining s a b ca cb"
    | (drain_b) "link_draining s b a cb ca"
    | (closed) "link_closed s a b ca cb"
    by (auto simp: link_inv_def)
  then show ?thesis
  proof cases
    case active
    from active_step [OF active assms(2), of cfg rc]
    obtain s' where "dispatch cfg rc s e = Some s'"
      "link_active s' a b ca cb \<or> link_draining s' b a cb ca"
      by blast
    with active show ?thesis by (auto simp: link_inv_def)
  next
    case drain_a
    from draining_step [OF drain_a assms(2), of cfg rc]
    obtain s' where s': "dispatch cfg rc s e = Some s'"
      "link_draining s' a b ca cb \<or> link_closed s' a b ca cb"
      by blast
    from s'(2) have "\<not> link_active s' a b ca cb"
      using link_draining_not_active link_closed_not_active by blast
    with s' show ?thesis by (auto simp: link_inv_def)
  next
    case drain_b
    then have "bevs s (target e) = None" using assms(2) by (simp add: link_draining_def)
    then have "dispatch cfg rc s e = Some s" by (rule dispatch_freed)
    with assms(1) show ?thesis by simp
  next
    case closed
    then have "bevs s (target e) = None" using assms(2) by (simp add: link_closed_def)
    then have "dispatch cfg rc s e = Some s" by (rule dispatch_freed)
    with assms(1) show ?thesis by simp
  qed
qed

lemma inv_step:
  assumes "link_inv s a b ca cb" "target e = a \<or> target e = b"
  shows "\<exists>s'. dispatch cfg rc s e = Some s' \<and> link_inv s' a b ca cb \<and>
           (\<not> link_active s a b ca cb \<longrightarrow> \<not> link_active s' a b ca cb)"
proof (cases "target e = a")
  case True
  with assms(1) show ?thesis by (rule inv_step_left)
next
  case False
  with assms(2) have t: "target e = b" by simp
  from inv_step_left [OF link_inv_sym [OF assms(1)] t, of cfg rc]
  show ?thesis
    using link_inv_sym link_active_sym by blast
qed

lemma inv_run:
  assumes "link_inv s a b ca cb" "\<forall>e\<in>set es. target e = a \<or> target e = b"
  shows "\<exists>s'. run cfg rc s es = Some s' \<and> link_inv s' a b ca cb \<and>
           (\<not> link_active s a b ca cb \<longrightarrow> \<not> link_active s' a b ca cb)"
  using assms
proof (induction es arbitrary: s)
  case Nil
  then show ?case by simp
next
  case (Cons e es)
  from Cons.prems have t: "target e = a \<or> target e = b"
    and rest: "\<forall>e\<in>set es. target e = a \<or> target e = b"
    by simp_all
  from inv_step [OF Cons.prems(1) t, of cfg rc]
  obtain s1 where s1: "dispatch cfg rc s e = Some s1" "link_inv s1 a b ca cb"
    "\<not> link_active s a b ca cb \<longrightarrow> \<not> link_active s1 a b ca cb"
    by blast
  from Cons.IH [OF s1(2) rest]
  obtain s' where s': "run cfg rc s1 es = Some s'" "link_inv s' a b ca cb"
    "\<not> link_active s1 a b ca cb \<longrightarrow> \<not> link_active s' a b ca cb"
    by blast
  from s1 s' show ?case by auto
qed

text \<open>The flags of an active link follow the trace, as long as the link stays active.\<close>

lemma active_flags_step:
  assumes "link_active s a b ca cb" "target e = a \<or> target e = b"
    and "dispatch cfg rc s e = Some s'" "link_active s' a b ca cb"
  shows "timed_out s' cb = timeout_pending a (timed_out s cb) [e] \<and>
         timed_out s' ca = timeout_pending b (timed_out s ca) [e]"
proof (cases "target e = a")
  case True
  from assms(1) have ne: "a \<noteq> b" by (simp add: link_active_def)
  have other: "timeout_pending b f [e] = f" for f
    using True ne by (cases e) auto
  from active_step [OF assms(1) True, of cfg rc] assms(3)
  have "link_active s' a b ca cb \<longrightarrow>
      timed_out s' cb = timeout_pending a (timed_out s cb) [e] \<and>
      timed_out s' ca = timed_out s ca"
    by auto
  with assms(4) show ?thesis by (simp add: other)
next
  case False
  with assms(2) have t: "target e = b" by simp
  from assms(1) have ne: "a \<noteq> b" by (simp add: link_active_def)
  have other: "timeout_pending a f [e] = f" for f
    using t ne by (cases e) auto
  from active_step [OF link_active_sym [OF assms(1)] t, of cfg rc] assms(3)
  have "link_active s' b a cb ca \<longrightarrow>
      timed_out s' ca = timeout_pending b (timed_out s ca) [e] \<and>
      timed_out s' cb = timed_out s cb"
    by auto
  with link_active_sym [OF assms(4)] show ?thesis by (simp add: other)
qed

lemma active_flags_run:
  assumes "link_active s a b ca cb" "\<forall>e\<in>set es. target e = a \<or> target e = b"
    and "run cfg rc s es = Some s'" "link_active s' a b ca cb"
  shows "timed_out s' cb = timeout_pending a (timed_out s cb) es \<and>
         timed_out s' ca = timeout_pending b (timed_out s ca) es"
  using assms
proof (induction es arbitrary: s)
  case Nil
  then show ?case by simp
next
  case (Cons e es)
  from Cons.prems have t: "target e = a \<or> target e = b"
    and rest: "\<forall>e\<in>set es. target e = a \<or> target e = b"
    by simp_all
  have inv: "link_inv s a b ca cb" using Cons.prems(1) by (simp add: link_inv_def)
  from inv_step [OF inv t, of cfg rc]
  obtain s1 where s1: "dispatch cfg rc s e = Some s1" "link_inv s1 a b ca cb"
    by blast
  with Cons.prems(3) have r: "run cfg rc s1 es = Some s'" by simp
  have a1: "link_active s1 a b ca cb"
  proof (rule ccontr)
    assume "\<not> link_active s1 a b ca cb"
    with inv_run [OF s1(2) rest, of cfg rc] r Cons.prems(4) show False by auto
  qed
  note step = active_flags_step [OF Cons.prems(1) t s1(1) a1]
  note ih = Cons.IH [OF a1 rest r Cons.prems(4)]
  show ?case
    unfolding timeout_pending_Cons [of a _ e es] timeout_pending_Cons [of b _ e es]
    using step ih by simp
qed

text \<open>Data events keep the link active and every byte in order.\<close>

lemma data_step:
  assumes "link_active s a b ca cb" "target e = a \<or> target e = b" "is_data e"
  shows "\<exists>s'. dispatch cfg rc s e = Some s' \<and> link_active s' a b ca cb \<and>
           stream_out s' b @ pending_in s' a
             = stream_out s b @ pending_in s a @ received_on a [e] \<and>
           stream_out s' a @ pending_in s' b
             = stream_out s a @ pending_in s b @ received_on b [e]"
proof (cases "target e = a")
  case True
  from assms(1) have ne: "a \<noteq> b" by (simp add: link_active_def)
  have other: "received_on b [e] = []" using True ne by (cases e) auto
  from active_step [OF assms(1) True, of cfg rc] assms(3)
  obtain s' where "dispatch cfg rc s e = Some s'" "link_active s' a b ca cb"
    "stream_out s' b @ pending_in s' a = stream_out s b @ pending_in s a @ received_on a [e]"
    "stream_out s' a = stream_out s a" "pending_in s' b = pending_in s b"
    by blast
  then show ?thesis by (simp add: other)
next
  case False
  with assms(2) have t: "target e = b" by simp
  from assms(1) have ne: "a \<noteq> b" by (simp add: link_active_def)
  have other: "received_on a [e] = []" using t ne by (cases e) auto
  from active_step [OF link_active_sym [OF assms(1)] t, of cfg rc] assms(3)
  obtain s' where "dispatch cfg rc s e = Some s'" "link_active s' b a cb ca"
    "stream_out s' a @ pending_in s' b = stream_out s a @ pending_in s b @ received_on b [e]"
    "stream_out s' b = stream_out s b" "pending_in s' a = pending_in s a"
    by blast
  then show ?thesis by (simp add: other link_active_sym)
qed

lemma data_run:
  assumes "link_active s a b ca cb"
    and "\<forall>e\<in>set es. is_data e \<and> (target e = a \<or> target e = b)"
  shows "\<exists>s'. run cfg rc s es = Some s' \<and> link_active s' a b ca cb \<and>
           stream_out s' b @ pending_in s' a
             = stream_out s b @ pending_in s a @ received_on a es \<and>
           stream_out s' a @ pending_in s' b
             = stream_out s a @ pending_in s b @ received_on b es"
  using assms
proof (induction es arbitrary: s)
  case Nil
  then show ?case by simp
next
  case (Cons e es)
  from Cons.prems have t: "target e = a \<or> target e = b" and d: "is_data e"
    and rest: "\<forall>e\<in>set es. is_data e \<and> (target e = a \<or> target e = b)"
    by simp_all
  from data_step [OF Cons.prems(1) t d, of cfg rc]
  obtain s1 where s1: "dispatch cfg rc s e = Some s1" "link_active s1 a b ca cb"
    "stream_out s1 b @ pending_in s1 a = stream_out s b @ pending_in s a @ received_on a [e]"
    "stream_out s1 a @ pending_in s1 b = stream_out s a @ pending_in s b @ received_on b [e]"
    by blast
  from Cons.IH [OF s1(2) rest]
  obtain s' where s': "run cfg rc s1 es = Some s'" "link_active s' a b ca cb"
    "stream_out s' b @ pending_in s' a = stream_out s1 b @ pending_in s1 a @ received_on a es"
    "stream_out s' a @ pending_in s' b = stream_out s1 a @ pending_in s1 b @ received_on b es"
    by blast
  have "stream_out s' b @ pending_in s' a
      = stream_out s b @ pending_in s a @ received_on a (e # es)"
    using s'(3) s1(3) received_on_Cons [of a e es]
    by (metis append.assoc)
  moreover have "stream_out s' a @ pending_in s' b
      = stream_out s a @ pending_in s b @ received_on b (e # es)"
    using s'(4) s1(4) received_on_Cons [of b e es]
    by (metis append.assoc)
  ultimately show ?case using s1(1) s'(1,2) by simp
qed

text \<open>What \<open>back_connection\<close> leaves when the connection is reported.\<close>

lemma paired_active:
  assumes "cl \<noteq> bk" "bevs s cl = Some c" "bevs s bk = Some k"
    and "events AND BEV_EVENT_CONNECTED \<noteq> 0"
  shows "\<exists>s0. back_connection cfg s bk events (ARG_bev cl) = Some s0 \<and>
           link_active s0 cl bk (next_ctx s) (Suc (next_ctx s)) \<and>
           \<not> timed_out s0 (next_ctx s) \<and> \<not> timed_out s0 (Suc (next_ctx s)) \<and>
           stream_out s0 bk = be_sent k @ concat (be_output k) @ concat (be_input c) \<and>
           pending_in s0 cl = [] \<and>
           stream_out s0 cl = be_sent c @ concat (be_output c) \<and>
           pending_in s0 bk = concat (be_input k)"
  unfolding back_connection_connected [OF assms]
  using assms(1) by (simp add: obs_defs evbuffer_add_buffer_concat)

text \<open>Closing one endpoint of a joined pair, and what follows on the other.\<close>

lemma link_joinedE:
  assumes "link_joined s a b ca cb"
  obtains xa xb ya yb where
    "a \<noteq> b" "ca \<noteq> cb" "bevs s a = Some xa" "bevs s b = Some xb"
    "ctxs s ca = Some ya" "ctxs s cb = Some yb"
    "be_eventcb xa = ECB_pipe_error" "be_cbarg xa = ARG_ctx ca"
    "be_readcb xb = RCB_pipe_read" "be_eventcb xb = ECB_pipe_error" "be_cbarg xb = ARG_ctx cb"
    "bev ya = Some b" "pair ya = Some cb" "bev yb = Some a" "pair yb = Some ca"
  using assms
  by (auto simp: link_joined_def pipe_end_def ctx_is_def split: option.splits)

lemma joined_close:
  assumes "link_joined s a b ca cb" "error AND BEV_EVENT_TIMEOUT = 0 \<or> timed_out s ca"
  shows "\<exists>s' x. dispatch cfg rc s (Event a error) = Some s' \<and> link_draining s' b a cb ca \<and>
           bevs s b = Some x \<and>
           bevs s' b = Some (x\<lparr>be_timeout_read := Some (1, 0), be_timeout_write := Some (1, 0),
                               be_read_enabled := True\<rparr>)"
proof -
  from assms(1) obtain xa xb ya yb where
    ne: "a \<noteq> b" "ca \<noteq> cb"
    and live: "bevs s a = Some xa" "bevs s b = Some xb" "ctxs s ca = Some ya" "ctxs s cb = Some yb"
    and cba: "be_eventcb xa = ECB_pipe_error" "be_cbarg xa = ARG_ctx ca"
    and cbb: "be_readcb xb = RCB_pipe_read" "be_eventcb xb = ECB_pipe_error"
      "be_cbarg xb = ARG_ctx cb"
    and ptr: "bev ya = Some b" "pair ya = Some cb" "bev yb = Some a" "pair yb = Some ca"
    by (rule link_joinedE)
  from assms(2) live have c: "error AND BEV_EVENT_TIMEOUT = 0 \<or> other_timedout ya"
    by (simp add: timed_out_def)
  let ?xb = "xb\<lparr>be_timeout_read := Some (1, 0), be_timeout_write := Some (1, 0),
                be_read_enabled := True\<rparr>"
  have e: "\<exists>s''. pipe_error s' a error (ARG_ctx ca) = Some s'' \<and> link_draining s'' b a cb ca \<and>
      bevs s'' b = Some ?xb"
    if "s' = s \<or> s' = s\<lparr>bevs := (bevs s)(a \<mapsto> xa\<lparr>be_read_enabled := False\<rparr>)\<rparr>" for s'
  proof -
    from that live ne obtain x' where s': "bevs s' a = Some x'" "bevs s' b = Some xb"
      "ctxs s' ca = Some ya" "ctxs s' cb = Some yb"
      by auto
    show ?thesis
    proof (cases "error AND BEV_EVENT_TIMEOUT = 0")
      case True
      then have "pipe_error s' a error (ARG_ctx ca) = pipe_error_close s' a ca"
        by (simp add: pipe_error_def)
      then show ?thesis
        unfolding pipe_error_close_active [OF ne s' ptr(1,2)]
        using ne cbb by (simp add: link_draining_def pipe_end_def ctx_is_def)
    next
      case False
      with c have "other_timedout ya" by simp
      from pipe_error_second_timeout [OF ne s' ptr(1,2) False this]
      show ?thesis using ne cbb by (simp add: link_draining_def pipe_end_def ctx_is_def)
    qed
  qed
  have "\<exists>s''. dispatch cfg rc s (Event a error) = Some s'' \<and> link_draining s'' b a cb ca \<and>
      bevs s'' b = Some ?xb"
    using live cba e by (simp add: run_eventcb_def bufferevent_disable_def upd_bev_def)
  with live(2) show ?thesis by blast
qed

lemma run_append:
  "run cfg rc s (es @ es') = run cfg rc s es \<bind> (\<lambda>s1. run cfg rc s1 es')"
  by (induction es arbitrary: s) simp_all

lemma survivor_step:
  assumes "link_draining s b a cb ca \<or> link_closed s a b ca cb"
    and "target e = a \<or> target e = b"
  shows "\<exists>s'. dispatch cfg rc s e = Some s' \<and>
           (link_draining s' b a cb ca \<or> link_closed s' a b ca cb) \<and>
           (is_data e \<longrightarrow> link_draining s b a cb ca \<longrightarrow> link_draining s' b a cb ca)"
proof (cases "bevs s (target e) = None")
  case True
  then have "dispatch cfg rc s e = Some s" by (rule dispatch_freed)
  with assms(1) show ?thesis by simp
next
  case False
  with assms have d: "link_draining s b a cb ca" and t: "target e = b"
    by (auto simp: link_draining_def link_closed_def)
  show ?thesis
  proof (cases e)
    case (Readable x data)
    with t have e: "e = Readable b data" by simp
    from draining_readable [OF d, of cfg rc data] show ?thesis unfolding e by auto
  next
    case (Written x n)
    with t have e: "e = Written b n" by simp
    from draining_written [OF d, of cfg rc n] show ?thesis unfolding e by auto
  next
    case (Event x flags)
    with t have e: "e = Event b flags" by simp
    from draining_event [OF d, of cfg rc flags]
    obtain s' where "dispatch cfg rc s (Event b flags) = Some s'" "link_closed s' b a cb ca"
      by blast
    then show ?thesis unfolding e by (auto simp: link_closed_def)
  qed
qed

lemma survivor_run:
  assumes "link_draining s b a cb ca \<or> link_closed s a b ca cb"
    and "\<forall>e\<in>set es. target e = a \<or> target e = b"
  shows "\<exists>s'. run cfg rc s es = Some s' \<and>
           (link_draining s' b a cb ca \<or> link_closed s' a b ca cb) \<and>
           ((\<forall>e\<in>set es. is_data e) \<longrightarrow> link_draining s b a cb ca \<longrightarrow>
              link_draining s' b a cb ca)"
  using assms
proof (induction es arbitrary: s)
  case Nil
  then show ?case by simp
next
  case (Cons e es)
  from Cons.prems have t: "target e = a \<or> target e = b"
    and rest: "\<forall>e\<in>set es. target e = a \<or> target e = b"
    by simp_all
  from survivor_step [OF Cons.prems(1) t, of cfg rc]
  obtain s1 where s1: "dispatch cfg rc s e = Some s1"
    "link_draining s1 b a cb ca \<or> link_closed s1 a b ca cb"
    "is_data e \<longrightarrow> link_draining s b a cb ca \<longrightarrow> link_draining s1 b a cb ca"
    by blast
  from Cons.IH [OF s1(2) rest]
  obtain s' where s': "run cfg rc s1 es = Some s'"
    "link_draining s' b a cb ca \<or> link_closed s' a b ca cb"
    "(\<forall>e\<in>set es. is_data e) \<longrightarrow> link_draining s1 b a cb ca \<longrightarrow> link_draining s' b a cb ca"
    by blast
  from s1 s' show ?case by auto
qed

lemma survivor_freed_by_event:
  assumes "link_draining s b a cb ca"
    and "\<forall>e\<in>set es. target e = a \<or> target e = b"
  shows "\<exists>s'. run cfg rc s (es @ [Event b flags]) = Some s' \<and> link_closed s' a b ca cb"
proof -
  from assms(1) have "link_draining s b a cb ca \<or> link_closed s a b ca cb" by simp
  from survivor_run [OF this assms(2), of cfg rc]
  obtain s1 where s1: "run cfg rc s es = Some s1"
    "link_draining s1 b a cb ca \<or> link_closed s1 a b ca cb"
    by blast
  have t: "target (Event b flags) = a \<or> target (Event b flags) = b" by simp
  have "\<exists>s'. dispatch cfg rc s1 (Event b flags) = Some s' \<and> link_closed s' a b ca cb"
  proof (cases "link_draining s1 b a cb ca")
    case True
    from draining_event [OF True, of cfg rc flags] show ?thesis
      by (auto simp: link_closed_def simp del: dispatch.simps)
  next
    case False
    with s1(2) have c: "link_closed s1 a b ca cb" by simp
    then have "bevs s1 (target (Event b flags)) = None" by (simp add: link_closed_def)
    then have "dispatch cfg rc s1 (Event b flags) = Some s1" by (rule dispatch_freed)
    with c show ?thesis by blast
  qed
  then obtain s' where "dispatch cfg rc s1 (Event b flags) = Some s'" "link_closed s' a b ca cb"
    by blast
  with s1(1) show ?thesis
    unfolding run_append by (simp del: dispatch.simps)
qed

text \<open>Any event an active link survives keeps every byte in order.\<close>

lemma active_stream_step:
  assumes "link_active s a b ca cb" "target e = a \<or> target e = b"
    and "dispatch cfg rc s e = Some s'" "link_active s' a b ca cb"
  shows "stream_out s' b @ pending_in s' a
           = stream_out s b @ pending_in s a @ received_on a [e] \<and>
         stream_out s' a @ pending_in s' b
           = stream_out s a @ pending_in s b @ received_on b [e]"
proof (cases "is_data e")
  case True
  from data_step [OF assms(1,2) True, of cfg rc] assms(3) show ?thesis by auto
next
  case False
  then obtain x flags where e: "e = Event x flags" by (cases e) auto
  have same: "stream_out s' a = stream_out s a \<and> stream_out s' b = stream_out s b \<and>
      pending_in s' a = pending_in s a \<and> pending_in s' b = pending_in s b"
    if act: "link_active s u v cu cv" and x: "x = u"
      and act': "link_active s' u v cu cv" for u v cu cv
  proof (cases "flags AND BEV_EVENT_TIMEOUT \<noteq> 0 \<and> \<not> timed_out s cu")
    case True
    from active_timeout_first [OF act, of flags cfg rc] True
    obtain y where "dispatch cfg rc s (Event u flags) =
        Some (s\<lparr>ctxs := (ctxs s)(cv \<mapsto> y\<lparr>other_timedout := True\<rparr>)\<rparr>)"
      by blast
    with assms(3) e x have "s' = s\<lparr>ctxs := (ctxs s)(cv \<mapsto> y\<lparr>other_timedout := True\<rparr>)\<rparr>"
      by simp
    then show ?thesis by (simp add: stream_out_def pending_in_def)
  next
    case False
    then have "flags AND BEV_EVENT_TIMEOUT = 0 \<or> timed_out s cu" by auto
    from active_close [OF act this, of cfg rc]
    obtain s'' where "dispatch cfg rc s (Event u flags) = Some s''" "link_draining s'' v u cv cu"
      by blast
    with assms(3) e x have "link_draining s' v u cv cu" by simp
    with link_draining_not_active [OF this] act' show ?thesis by simp
  qed
  from assms(2) e have "x = a \<or> x = b" by simp
  then have "stream_out s' a = stream_out s a \<and> stream_out s' b = stream_out s b \<and>
      pending_in s' a = pending_in s a \<and> pending_in s' b = pending_in s b"
  proof
    assume "x = a"
    from same [OF assms(1) this assms(4)] show ?thesis .
  next
    assume "x = b"
    from same [OF link_active_sym [OF assms(1)] this link_active_sym [OF assms(4)]]
    show ?thesis by simp
  qed
  then show ?thesis by (simp add: e)
qed

lemma active_stream_run:
  assumes "link_active s a b ca cb" "\<forall>e\<in>set es. target e = a \<or> target e = b"
    and "run cfg rc s es = Some s'" "link_active s' a b ca cb"
  shows "stream_out s' b @ pending_in s' a
           = stream_out s b @ pending_in s a @ received_on a es \<and>
         stream_out s' a @ pending_in s' b
           = stream_out s a @ pending_in s b @ received_on b es"
  using assms
proof (induction es arbitrary: s)
  case Nil
  then show ?case by simp
next
  case (Cons e es)
  from Cons.prems have t: "target e = a \<or> target e = b"
    and rest: "\<forall>e\<in>set es. target e = a \<or> target e = b"
    by simp_all
  have inv: "link_inv s a b ca cb" using Cons.prems(1) by (simp add: link_inv_def)
  from inv_step [OF inv t, of cfg rc]
  obtain s1 where s1: "dispatch cfg rc s e = Some s1" "link_inv s1 a b ca cb"
    by blast
  with Cons.prems(3) have r: "run cfg rc s1 es = Some s'" by simp
  have a1: "link_active s1 a b ca cb"
  proof (rule ccontr)
    assume "\<not> link_active s1 a b ca cb"
    with inv_run [OF s1(2) rest, of cfg rc] r Cons.prems(4) show False by auto
  qed
  note step = active_stream_step [OF Cons.prems(1) t s1(1) a1]
  note ih = Cons.IH [OF a1 rest r Cons.prems(4)]
  have "stream_out s' b @ pending_in s' a
      = stream_out s b @ pending_in s a @ received_on a (e # es)"
    using step ih received_on_Cons [of a e es] by (metis append.assoc)
  moreover have "stream_out s' a @ pending_in s' b
      = stream_out s a @ pending_in s b @ received_on b (e # es)"
    using step ih received_on_Cons [of b e es] by (metis append.assoc)
  ultimately show ?case by simp
qed

lemma data_keeps_active:
  assumes "link_active s a b ca cb"
    and "\<forall>e\<in>set es. target e = a \<or> target e = b" "\<forall>e\<in>set es. is_data e"
    and "run cfg rc s es = Some s'"
  shows "link_active s' a b ca cb"
proof -
  from assms(2,3) have "\<forall>e\<in>set es. is_data e \<and> (target e = a \<or> target e = b)" by simp
  from data_run [OF assms(1) this, of cfg rc] assms(4) show ?thesis by auto
qed

section \<open>Facts about the examples\<close>

lemma example_flags:
  "BEV_EVENT_TIMEOUT OR BEV_EVENT_READING = 0x41"
  "BEV_EVENT_EOF OR BEV_EVENT_READING = 0x11"
  "(0x41 :: 16 word) AND BEV_EVENT_TIMEOUT \<noteq> 0"
  "(0x11 :: 16 word) AND BEV_EVENT_TIMEOUT = 0"
  "(0x41 :: 16 word) AND BEV_EVENT_READING \<noteq> 0"
  "BEV_EVENT_CONNECTED AND BEV_EVENT_CONNECTED \<noteq> 0"
  "BEV_EVENT_ERROR AND BEV_EVENT_CONNECTED = 0"
  "BEV_EVENT_ERROR AND BEV_EVENT_ERROR \<noteq> 0"
  "BEV_EVENT_TIMEOUT AND BEV_EVENT_TIMEOUT \<noteq> 0"
  by (simp_all add: BEV_EVENT_TIMEOUT_def BEV_EVENT_READING_def BEV_EVENT_EOF_def
      BEV_EVENT_CONNECTED_def BEV_EVENT_ERROR_def)

lemma example_ports:
  "htons (normal_port example_config) = 22"
  "htons (hidden_port example_config) = 2222"
  "(2222 :: 16 word) \<noteq> 22"
  by (simp_all add: htons_def example_config_def)

lemma example_decisions:
  "knock_decision example_config [[0xDE, 0xAD, 0xBE, 0xEF, 0x68]] = Some (2222, [[0x68]])"
  "knock_decision example_config [[0xDE, 0xAD], [0xBE, 0xEF, 0x68]]
     = Some (22, [[0xDE, 0xAD], [0xBE, 0xEF, 0x68]])"
  "fst (evbuffer_peek [[0xDE, 0xAD, 0xBE, 0xEF, 0x68]] (int (knock_size example_config)) 1) = 1"
  by (simp_all add: knock_decision_def evbuffer_peek_def memcmp_def example_config_def
      evbuffer_drain_def evbuffer_get_length_def)

lemma example_paired:
  "link_active (paired_state f) 0 1 0 1"
  "link_active (paired_state f) 1 0 1 0"
  "timed_out (paired_state f) 0 = f"
  "timed_out (paired_state f) 1 = False"
  "ctxs (paired_state f) 0 = Some \<lparr>bev = Some 1, pair = Some 1, other_timedout = f\<rparr>"
  "ctxs (paired_state f) 1 = Some \<lparr>bev = Some 0, pair = Some 0, other_timedout = False\<rparr>"
  by (simp_all add: paired_state_def obs_defs)

lemma example_backend_timeout:
  "dispatch example_config 0 (paired_state False) (Event 1 0x41) = Some (paired_state True)"
proof -
  have nt: "\<not> timed_out (paired_state False) 1"
    by (simp add: paired_state_def timed_out_def)
  from active_timeout_first [OF example_paired(2) example_flags(3) nt, of example_config 0]
  obtain y where y: "ctxs (paired_state False) 0 = Some y"
    "dispatch example_config 0 (paired_state False) (Event 1 0x41) =
       Some ((paired_state False)
         \<lparr>ctxs := (ctxs (paired_state False))(0 \<mapsto> y\<lparr>other_timedout := True\<rparr>)\<rparr>)"
    by blast
  from y(1) have "y = \<lparr>bev = Some 1, pair = Some 1, other_timedout = False\<rparr>"
    by (simp add: paired_state_def)
  then have "(paired_state False)
        \<lparr>ctxs := (ctxs (paired_state False))(0 \<mapsto> y\<lparr>other_timedout := True\<rparr>)\<rparr>
      = paired_state True"
    by (simp add: paired_state_def fun_upd_twist)
  with y(2) show ?thesis by (simp only:)
qed

lemma example_connecting:
  "bevs (connecting_state inp) 0 =
     Some \<lparr>be_input = inp, be_output = [], be_sent = [], be_fd = 5, be_port = None,
            be_nodelay = False, be_read_enabled = False,
            be_watermark = (0, MAX_RECV_BUF_DEFAULT),
            be_timeout_read = None, be_timeout_write = None,
            be_readcb = RCB_NULL, be_eventcb = ECB_pipe_error, be_cbarg = ARG_NULL\<rparr>"
  "bevs (connecting_state inp) 1 =
     Some \<lparr>be_input = [], be_output = [], be_sent = [], be_fd = - 1,
            be_port = Some 22, be_nodelay = False, be_read_enabled = False,
            be_watermark = (0, 0),
            be_timeout_read = None, be_timeout_write = None,
            be_readcb = RCB_NULL, be_eventcb = ECB_back_connection,
            be_cbarg = ARG_bev 0\<rparr>"
  "next_ctx (connecting_state inp) = 0"
  by (simp_all add: connecting_state_def)

section \<open>The listener\<close>

text \<open>
  C8. For every descriptor \<open>accept\<close> returns: a descriptor above \<open>FD_SETSIZE\<close> is closed
  at once and no bufferevent is made for it; every other accepted descriptor gets a
  bufferevent with the read watermark range \<open>[0, MAX_RECV_BUF_DEFAULT]\<close>, reading enabled,
  the read timeout \<open>knock_timeout\<close> and no write timeout, and carries the callbacks of the
  initial handshake. \<open>MAX_RECV_BUF_DEFAULT\<close>, that is \<open>2 << 16\<close>, is 131072.
\<close>

theorem initial_accept_endpoint:
  "MAX_RECV_BUF_DEFAULT = 131072 \<and>
   (0 \<le> fd \<longrightarrow> fd_setsize < fd \<longrightarrow>
      initial_accept cfg fd_setsize s fd = Some (s\<lparr>closed_fds := fd # closed_fds s\<rparr>)) \<and>
   (0 \<le> fd \<longrightarrow> fd \<le> fd_setsize \<longrightarrow>
      initial_accept cfg fd_setsize s fd =
        Some (s\<lparr>bevs := (bevs s)
                  (next_bev s \<mapsto>
                     \<lparr>be_input = [], be_output = [], be_sent = [], be_fd = fd,
                      be_port = None, be_nodelay = False, be_read_enabled = True,
                      be_watermark = (0, MAX_RECV_BUF_DEFAULT),
                      be_timeout_read = Some (knock_timeout cfg), be_timeout_write = None,
                      be_readcb = RCB_initial_read, be_eventcb = ECB_initial_error,
                      be_cbarg = ARG_base\<rparr>),
                next_bev := Suc (next_bev s)\<rparr>))"
proof -
  have m: "MAX_RECV_BUF_DEFAULT = 131072"
    by (simp add: MAX_RECV_BUF_DEFAULT_def)
  show ?thesis
    unfolding initial_accept_cases m by simp
qed

theorem initial_accept_endpoint_witness:
  "(0::int) \<le> 2000 \<and> (1024::int) < 2000 \<and>
   initial_accept example_config 1024 start_state 2000 =
     Some (start_state\<lparr>closed_fds := 2000 # closed_fds start_state\<rparr>) \<and>
   (0::int) \<le> 5 \<and> (5::int) \<le> 1024 \<and>
   initial_accept example_config 1024 start_state 5 =
     Some (start_state\<lparr>bevs := (bevs start_state)
                  (next_bev start_state \<mapsto>
                     \<lparr>be_input = [], be_output = [], be_sent = [], be_fd = 5,
                      be_port = None, be_nodelay = False, be_read_enabled = True,
                      be_watermark = (0, MAX_RECV_BUF_DEFAULT),
                      be_timeout_read = Some (knock_timeout example_config),
                      be_timeout_write = None,
                      be_readcb = RCB_initial_read, be_eventcb = ECB_initial_error,
                      be_cbarg = ARG_base\<rparr>),
                next_bev := Suc (next_bev start_state)\<rparr>)"
  using initial_accept_endpoint [where fd = 2000 and fd_setsize = 1024
      and cfg = example_config and s = start_state]
    initial_accept_endpoint [where fd = 5 and fd_setsize = 1024
      and cfg = example_config and s = start_state]
  by simp

section \<open>The detector\<close>

text \<open>
  C1, as the code has it. Let \<open>B\<close> be the bytes buffered on the client when
  \<open>initial_read\<close> runs, the knock be readable (\<open>knock_size\<close> does not exceed the
  length of \<open>knock_value\<close>), and the back connection be started and then reported
  connected. If \<open>knock_size\<close> is positive and the first extent of the input buffer
  holds at least \<open>knock_size\<close> bytes whose first \<open>knock_size\<close> bytes equal the knock,
  the connection goes to the hidden port, exactly \<open>knock_size\<close> bytes are drained and the
  backend is handed \<open>B\<close> without them. In every other case (also for a knock of size 0,
  and for a matching prefix that is split over several extents) the connection goes to the
  normal port, the input buffer is left as it is and the backend is handed \<open>B\<close>
  unchanged. Nothing was written to the backend socket before.
\<close>

theorem knock_routing:
  assumes "bevs s b = Some be" and "b < next_bev s" and "0 \<le> rc"
    and "knock_size cfg \<le> length (knock_value cfg)"
    and "events AND BEV_EVENT_CONNECTED \<noteq> 0"
  shows "\<exists>s1 s2 c k.
           initial_read cfg rc s b ctx = Some s1 \<and> bevs s1 b = Some c \<and>
           back_connection cfg s1 (next_bev s) events (ARG_bev b) = Some s2 \<and>
           bevs s2 (next_bev s) = Some k \<and> be_sent k = [] \<and>
           concat (be_output k) = concat (be_input c) \<and>
           (if 0 < knock_size cfg \<and> be_input be \<noteq> [] \<and>
               knock_size cfg \<le> length (hd (be_input be)) \<and>
               take (knock_size cfg) (hd (be_input be))
                 = take (knock_size cfg) (knock_value cfg)
            then be_port k = Some (htons (hidden_port cfg)) \<and>
                 be_input c = evbuffer_drain (be_input be) (knock_size cfg) \<and>
                 concat (be_output k) = drop (knock_size cfg) (concat (be_input be))
            else be_port k = Some (htons (normal_port cfg)) \<and>
                 be_input c = be_input be \<and>
                 concat (be_output k) = concat (be_input be))"
proof -
  from assms(2) have ne: "b \<noteq> next_bev s" by simp
  let ?hit = "0 < knock_size cfg \<and> be_input be \<noteq> [] \<and>
               knock_size cfg \<le> length (hd (be_input be)) \<and>
               take (knock_size cfg) (hd (be_input be))
                 = take (knock_size cfg) (knock_value cfg)"
  let ?port = "if ?hit then hidden_port cfg else normal_port cfg"
  let ?inp = "if ?hit then evbuffer_drain (be_input be) (knock_size cfg) else be_input be"
  have dec: "knock_decision cfg (be_input be) = Some (?port, ?inp)"
    by (simp add: knock_decision_cases [OF assms(4)])
  note r = initial_read_routed [OF assms(1) ne assms(3) dec, of ctx]
  let ?s1 = "s\<lparr>bevs := (bevs s)
               (b \<mapsto> be\<lparr>be_input := ?inp, be_watermark := (0, MAX_RECV_BUF_DEFAULT),
                         be_read_enabled := False,
                         be_timeout_read := None, be_timeout_write := None,
                         be_readcb := RCB_NULL, be_eventcb := ECB_pipe_error,
                         be_cbarg := ARG_NULL\<rparr>,
                next_bev s \<mapsto> (new_bufferevent (- 1))
                         \<lparr>be_readcb := RCB_NULL, be_eventcb := ECB_back_connection,
                          be_cbarg := ARG_bev b, be_port := Some (htons ?port)\<rparr>),
             next_bev := Suc (next_bev s)\<rparr>"
  let ?c = "be\<lparr>be_input := ?inp, be_watermark := (0, MAX_RECV_BUF_DEFAULT),
                         be_read_enabled := False,
                         be_timeout_read := None, be_timeout_write := None,
                         be_readcb := RCB_NULL, be_eventcb := ECB_pipe_error,
                         be_cbarg := ARG_NULL\<rparr>"
  let ?k = "(new_bufferevent (- 1))
                         \<lparr>be_readcb := RCB_NULL, be_eventcb := ECB_back_connection,
                          be_cbarg := ARG_bev b, be_port := Some (htons ?port)\<rparr>"
  have c: "bevs ?s1 b = Some ?c" using ne by simp
  have k: "bevs ?s1 (next_bev s) = Some ?k" by simp
  note p = back_connection_connected [OF ne c k assms(5), of cfg]
  obtain s2 where s2: "back_connection cfg ?s1 (next_bev s) events (ARG_bev b) = Some s2"
    using p by simp
  have k2: "\<exists>k. bevs s2 (next_bev s) = Some k \<and> be_sent k = [] \<and>
      be_port k = Some (htons ?port) \<and> concat (be_output k) = concat ?inp"
    using s2 ne unfolding p
    by (auto simp: evbuffer_add_buffer_concat new_bufferevent_def)
  then obtain k where k': "bevs s2 (next_bev s) = Some k" "be_sent k = []"
      "be_port k = Some (htons ?port)" "concat (be_output k) = concat ?inp"
    by blast
  have ci: "be_input ?c = ?inp" by simp
  show ?thesis
  proof (intro exI conjI)
    show "initial_read cfg rc s b ctx = Some ?s1" by (rule r)
    show "bevs ?s1 b = Some ?c" by (rule c)
    show "back_connection cfg ?s1 (next_bev s) events (ARG_bev b) = Some s2" by (rule s2)
    show "bevs s2 (next_bev s) = Some k" by (rule k'(1))
    show "be_sent k = []" by (rule k'(2))
    show "concat (be_output k) = concat (be_input ?c)" using k'(4) ci by simp
    show "if ?hit
          then be_port k = Some (htons (hidden_port cfg)) \<and>
               be_input ?c = evbuffer_drain (be_input be) (knock_size cfg) \<and>
               concat (be_output k) = drop (knock_size cfg) (concat (be_input be))
          else be_port k = Some (htons (normal_port cfg)) \<and>
               be_input ?c = be_input be \<and>
               concat (be_output k) = concat (be_input be)"
      using k'(3,4) by (simp add: evbuffer_drain_concat)
  qed
qed

theorem knock_routing_witness:
  "bevs (detecting_state [[0xDE, 0xAD, 0xBE, 0xEF, 0x68, 0x65, 0x6C, 0x6C, 0x6F]]) 0
     = Some (example_client [[0xDE, 0xAD, 0xBE, 0xEF, 0x68, 0x65, 0x6C, 0x6C, 0x6F]]) \<and>
   0 < next_bev (detecting_state [[0xDE, 0xAD, 0xBE, 0xEF, 0x68, 0x65, 0x6C, 0x6C, 0x6F]]) \<and>
   knock_size example_config \<le> length (knock_value example_config) \<and>
   BEV_EVENT_CONNECTED AND BEV_EVENT_CONNECTED \<noteq> 0 \<and>
   (\<exists>s1 s2 c k.
      initial_read example_config 0
        (detecting_state [[0xDE, 0xAD, 0xBE, 0xEF, 0x68, 0x65, 0x6C, 0x6C, 0x6F]]) 0 ARG_base
        = Some s1 \<and>
      bevs s1 0 = Some c \<and>
      back_connection example_config s1 1 BEV_EVENT_CONNECTED (ARG_bev 0) = Some s2 \<and>
      bevs s2 1 = Some k \<and> be_sent k = [] \<and> be_port k = Some 2222 \<and>
      concat (be_output k) = [0x68, 0x65, 0x6C, 0x6C, 0x6F]) \<and>
   bevs (detecting_state [[0x61, 0x62, 0x63, 0x64]]) 0
     = Some (example_client [[0x61, 0x62, 0x63, 0x64]]) \<and>
   0 < next_bev (detecting_state [[0x61, 0x62, 0x63, 0x64]]) \<and>
   (\<exists>s1 s2 c k.
      initial_read example_config 0 (detecting_state [[0x61, 0x62, 0x63, 0x64]]) 0 ARG_base
        = Some s1 \<and>
      bevs s1 0 = Some c \<and> be_input c = [[0x61, 0x62, 0x63, 0x64]] \<and>
      back_connection example_config s1 1 BEV_EVENT_CONNECTED (ARG_bev 0) = Some s2 \<and>
      bevs s2 1 = Some k \<and> be_sent k = [] \<and> be_port k = Some 22 \<and>
      concat (be_output k) = [0x61, 0x62, 0x63, 0x64])"
proof -
  let ?hello = "[[0xDE, 0xAD, 0xBE, 0xEF, 0x68, 0x65, 0x6C, 0x6C, 0x6F]] :: evbuffer"
  let ?abcd = "[[0x61, 0x62, 0x63, 0x64]] :: evbuffer"
  have a: "bevs (detecting_state ?hello) 0 = Some (example_client ?hello)"
    "0 < next_bev (detecting_state ?hello)"
    and b: "bevs (detecting_state ?abcd) 0 = Some (example_client ?abcd)"
    "0 < next_bev (detecting_state ?abcd)"
    and n: "next_bev (detecting_state ?hello) = 1" "next_bev (detecting_state ?abcd) = 1"
    and i: "be_input (example_client ?hello) = ?hello" "be_input (example_client ?abcd) = ?abcd"
    by (simp_all add: detecting_state_def example_client_def)
  have rc: "(0::int) \<le> 0" by simp
  have wf: "knock_size example_config \<le> length (knock_value example_config)"
    by (simp add: example_config_def)
  have hit: "0 < knock_size example_config \<and> ?hello \<noteq> [] \<and>
       knock_size example_config \<le> length (hd ?hello) \<and>
       take (knock_size example_config) (hd ?hello)
         = take (knock_size example_config) (knock_value example_config)"
    by (simp add: example_config_def)
  have miss: "\<not> (0 < knock_size example_config \<and> ?abcd \<noteq> [] \<and>
       knock_size example_config \<le> length (hd ?abcd) \<and>
       take (knock_size example_config) (hd ?abcd)
         = take (knock_size example_config) (knock_value example_config))"
    by (simp add: example_config_def)
  have d: "drop (knock_size example_config) (concat ?hello) = [0x68, 0x65, 0x6C, 0x6C, 0x6F]"
    "concat ?abcd = [0x61, 0x62, 0x63, 0x64]"
    by (simp_all add: example_config_def)
  note h = knock_routing [OF a rc wf example_flags(6), of ARG_base,
      unfolded i n if_P [OF hit] example_ports d]
  note m = knock_routing [OF b rc wf example_flags(6), of ARG_base,
      unfolded i n if_not_P [OF miss] example_ports d]
  have first: "\<exists>s1 s2 c k.
      initial_read example_config 0 (detecting_state ?hello) 0 ARG_base = Some s1 \<and>
      bevs s1 0 = Some c \<and>
      back_connection example_config s1 1 BEV_EVENT_CONNECTED (ARG_bev 0) = Some s2 \<and>
      bevs s2 1 = Some k \<and> be_sent k = [] \<and> be_port k = Some 2222 \<and>
      concat (be_output k) = [0x68, 0x65, 0x6C, 0x6C, 0x6F]"
    using h by blast
  have second: "\<exists>s1 s2 c k.
      initial_read example_config 0 (detecting_state ?abcd) 0 ARG_base = Some s1 \<and>
      bevs s1 0 = Some c \<and> be_input c = ?abcd \<and>
      back_connection example_config s1 1 BEV_EVENT_CONNECTED (ARG_bev 0) = Some s2 \<and>
      bevs s2 1 = Some k \<and> be_sent k = [] \<and> be_port k = Some 22 \<and>
      concat (be_output k) = [0x61, 0x62, 0x63, 0x64]"
    using m by blast
  show ?thesis
    using a b wf example_flags(6) first second by blast
qed

text \<open>
  C1 as stated fails: with the knock \<open>DE AD BE EF\<close> of size 4, a client whose first
  bytes \<open>DE AD BE EF 68\<close> arrive in two extents (\<open>DE AD\<close>, then \<open>BE EF 68\<close>)
  has the knock as its first four bytes, and yet is connected to the normal port 22, and
  the backend is handed all five bytes.
\<close>

theorem knock_split_counterexample:
  "take (knock_size example_config) (concat [[0xDE, 0xAD], [0xBE, 0xEF, 0x68]])
     = knock_value example_config \<and>
   hidden_port example_config \<noteq> normal_port example_config \<and>
   run example_config 0 (detecting_state [])
     [Readable 0 [[0xDE, 0xAD], [0xBE, 0xEF, 0x68]], Event 1 BEV_EVENT_CONNECTED] =
     Some \<lparr>bevs = Map.empty
             (0 \<mapsto> \<lparr>be_input = [], be_output = [], be_sent = [], be_fd = 5, be_port = None,
                     be_nodelay = False, be_read_enabled = True,
                     be_watermark = (0, MAX_RECV_BUF_DEFAULT),
                     be_timeout_read = Some (30, 0), be_timeout_write = None,
                     be_readcb = RCB_pipe_read, be_eventcb = ECB_pipe_error,
                     be_cbarg = ARG_ctx 0\<rparr>,
              1 \<mapsto> \<lparr>be_input = [], be_output = [[0xDE, 0xAD], [0xBE, 0xEF, 0x68]],
                     be_sent = [], be_fd = - 1, be_port = Some 22,
                     be_nodelay = True, be_read_enabled = True,
                     be_watermark = (0, MAX_RECV_BUF_DEFAULT),
                     be_timeout_read = Some (30, 0), be_timeout_write = None,
                     be_readcb = RCB_pipe_read, be_eventcb = ECB_pipe_error,
                     be_cbarg = ARG_ctx 1\<rparr>),
           ctxs = Map.empty
             (0 \<mapsto> \<lparr>bev = Some 1, pair = Some 1, other_timedout = False\<rparr>,
              1 \<mapsto> \<lparr>bev = Some 0, pair = Some 0, other_timedout = False\<rparr>),
           next_bev = 2, next_ctx = 2, closed_fds = []\<rparr>"
proof -
  let ?split = "[[0xDE, 0xAD], [0xBE, 0xEF, 0x68]] :: evbuffer"
  let ?s1 = "\<lparr>bevs = Map.empty
             (0 \<mapsto> \<lparr>be_input = ?split, be_output = [], be_sent = [], be_fd = 5,
                     be_port = None, be_nodelay = False, be_read_enabled = False,
                     be_watermark = (0, MAX_RECV_BUF_DEFAULT),
                     be_timeout_read = None, be_timeout_write = None,
                     be_readcb = RCB_NULL, be_eventcb = ECB_pipe_error,
                     be_cbarg = ARG_NULL\<rparr>,
              1 \<mapsto> \<lparr>be_input = [], be_output = [], be_sent = [], be_fd = - 1,
                     be_port = Some 22, be_nodelay = False, be_read_enabled = False,
                     be_watermark = (0, 0),
                     be_timeout_read = None, be_timeout_write = None,
                     be_readcb = RCB_NULL, be_eventcb = ECB_back_connection,
                     be_cbarg = ARG_bev 0\<rparr>),
           ctxs = Map.empty, next_bev = 2, next_ctx = 0, closed_fds = []\<rparr>"
  have pre: "take (knock_size example_config) (concat ?split) = knock_value example_config"
    and ports: "hidden_port example_config \<noteq> normal_port example_config"
    by (simp_all add: example_config_def)
  have step1: "dispatch example_config 0 (detecting_state []) (Readable 0 ?split) = Some ?s1"
    by (simp add: detecting_state_def example_client_def upd_bev_def run_readcb_def
        initial_read_def example_decisions create_pipe_def bufferevent_socket_new_def
        prim_defs new_bufferevent_def htons_def fun_upd_twist)
  have step2: "dispatch example_config 0 ?s1 (Event 1 BEV_EVENT_CONNECTED) =
     Some \<lparr>bevs = Map.empty
             (0 \<mapsto> \<lparr>be_input = [], be_output = [], be_sent = [], be_fd = 5, be_port = None,
                     be_nodelay = False, be_read_enabled = True,
                     be_watermark = (0, MAX_RECV_BUF_DEFAULT),
                     be_timeout_read = Some (30, 0), be_timeout_write = None,
                     be_readcb = RCB_pipe_read, be_eventcb = ECB_pipe_error,
                     be_cbarg = ARG_ctx 0\<rparr>,
              1 \<mapsto> \<lparr>be_input = [], be_output = ?split,
                     be_sent = [], be_fd = - 1, be_port = Some 22,
                     be_nodelay = True, be_read_enabled = True,
                     be_watermark = (0, MAX_RECV_BUF_DEFAULT),
                     be_timeout_read = Some (30, 0), be_timeout_write = None,
                     be_readcb = RCB_pipe_read, be_eventcb = ECB_pipe_error,
                     be_cbarg = ARG_ctx 1\<rparr>),
           ctxs = Map.empty
             (0 \<mapsto> \<lparr>bev = Some 1, pair = Some 1, other_timedout = False\<rparr>,
              1 \<mapsto> \<lparr>bev = Some 0, pair = Some 0, other_timedout = False\<rparr>),
           next_bev = 2, next_ctx = 2, closed_fds = []\<rparr>"
    by (simp add: run_eventcb_def back_connection_def create_contexts_def prim_defs
        evbuffer_add_buffer_def evbuffer_get_length_def example_config_def fun_upd_twist
        BEV_EVENT_CONNECTED_def BEV_EVENT_READING_def Let_def numeral_2_eq_2 [symmetric])
  show ?thesis
    using pre ports step1 step2 by (simp del: dispatch.simps)
qed

text \<open>
  C4. For a client that waits for the routing decision: an event with the timeout flag is
  handled exactly as a readiness event that brought no new bytes (the same
  \<open>initial_read\<close> on the same buffer, whatever the connect call returns); when no byte
  is buffered at the timeout the back connection is started to the normal port; an event
  without the timeout flag frees the client, and nothing else changes: no bufferevent
  for a backend is created.
\<close>

theorem detection_timeout_like_read:
  assumes "bevs s b = Some be" and "be_readcb be = RCB_initial_read"
    and "be_eventcb be = ECB_initial_error" and "be_read_enabled be" and "b < next_bev s"
  shows "(error AND BEV_EVENT_TIMEOUT \<noteq> 0 \<longrightarrow>
            dispatch cfg rc s (Event b error) = dispatch cfg rc s (Readable b [])) \<and>
         (error AND BEV_EVENT_TIMEOUT \<noteq> 0 \<longrightarrow> concat (be_input be) = [] \<longrightarrow> 0 \<le> rc \<longrightarrow>
            (\<exists>s'. dispatch cfg rc s (Event b error) = Some s' \<and>
               (\<exists>k. bevs s' (next_bev s) = Some k \<and>
                    be_port k = Some (htons (normal_port cfg))))) \<and>
         (error AND BEV_EVENT_TIMEOUT = 0 \<longrightarrow>
            dispatch cfg rc s (Event b error) =
              Some (s\<lparr>bevs := (bevs s)(b := None),
                      closed_fds := (if 0 \<le> be_fd be then be_fd be # closed_fds s
                                     else closed_fds s)\<rparr>))"
proof -
  from assms(5) have ne: "b \<noteq> next_bev s" by simp
  have ev: "error AND BEV_EVENT_TIMEOUT \<noteq> 0 \<Longrightarrow>
      dispatch cfg rc s (Event b error) = initial_read cfg rc s b (be_cbarg be)"
    using assms(1,3) initial_read_same_buffer [OF assms(1), of "be\<lparr>be_read_enabled := False\<rparr>"]
    by (simp add: run_eventcb_def initial_error_def bufferevent_disable_def upd_bev_def)
  have rd: "dispatch cfg rc s (Readable b []) = initial_read cfg rc s b (be_cbarg be)"
    using assms(1,2,4) initial_read_same_buffer [OF assms(1), of be]
    by (simp add: run_readcb_def upd_bev_def)
  have empty: "concat (be_input be) = [] \<Longrightarrow>
      knock_decision cfg (be_input be) = Some (normal_port cfg, be_input be)"
  proof -
    assume e: "concat (be_input be) = []"
    then have "be_input be = [] \<or> length (hd (be_input be)) < knock_size cfg \<or> knock_size cfg = 0"
      by (cases "be_input be") auto
    then show ?thesis by (rule knock_decision_short)
  qed
  have third: "error AND BEV_EVENT_TIMEOUT = 0 \<Longrightarrow>
      dispatch cfg rc s (Event b error) =
        Some (s\<lparr>bevs := (bevs s)(b := None),
                closed_fds := (if 0 \<le> be_fd be then be_fd be # closed_fds s
                               else closed_fds s)\<rparr>)"
    using assms(1,3)
    by (simp add: run_eventcb_def initial_error_def prim_defs)
  show ?thesis
  proof (intro conjI impI)
    assume t: "error AND BEV_EVENT_TIMEOUT \<noteq> 0"
    show "dispatch cfg rc s (Event b error) = dispatch cfg rc s (Readable b [])"
      by (rule trans [OF ev [OF t] rd [symmetric]])
  next
    assume t: "error AND BEV_EVENT_TIMEOUT \<noteq> 0" and e: "concat (be_input be) = []"
      and rc: "0 \<le> rc"
    show "\<exists>s'. dispatch cfg rc s (Event b error) = Some s' \<and>
               (\<exists>k. bevs s' (next_bev s) = Some k \<and>
                    be_port k = Some (htons (normal_port cfg)))"
      unfolding ev [OF t] initial_read_routed [OF assms(1) ne rc empty [OF e]]
      using ne by simp
  next
    assume "error AND BEV_EVENT_TIMEOUT = 0"
    then show "dispatch cfg rc s (Event b error) =
        Some (s\<lparr>bevs := (bevs s)(b := None),
                closed_fds := (if 0 \<le> be_fd be then be_fd be # closed_fds s
                               else closed_fds s)\<rparr>)"
      by (rule third)
  qed
qed

theorem detection_timeout_like_read_witness:
  "bevs (detecting_state []) 0 = Some (example_client []) \<and>
   be_readcb (example_client []) = RCB_initial_read \<and>
   be_eventcb (example_client []) = ECB_initial_error \<and>
   be_read_enabled (example_client []) \<and>
   0 < next_bev (detecting_state []) \<and>
   (0x41 :: 16 word) AND BEV_EVENT_TIMEOUT \<noteq> 0 \<and>
   concat (be_input (example_client [])) = [] \<and>
   dispatch example_config 0 (detecting_state []) (Event 0 0x41)
     = dispatch example_config 0 (detecting_state []) (Readable 0 []) \<and>
   (\<exists>s'. dispatch example_config 0 (detecting_state []) (Event 0 0x41) = Some s' \<and>
         (\<exists>k. bevs s' 1 = Some k \<and> be_port k = Some 22)) \<and>
   (0x11 :: 16 word) AND BEV_EVENT_TIMEOUT = 0 \<and>
   dispatch example_config 0 (detecting_state []) (Event 0 0x11)
     = Some ((detecting_state [])\<lparr>bevs := Map.empty, closed_fds := [5]\<rparr>)"
proof -
  have h: "bevs (detecting_state []) 0 = Some (example_client [])"
    "be_readcb (example_client []) = RCB_initial_read"
    "be_eventcb (example_client []) = ECB_initial_error"
    "be_read_enabled (example_client [])"
    "0 < next_bev (detecting_state [])"
    by (simp_all add: detecting_state_def example_client_def)
  have e: "concat (be_input (example_client [])) = []" by (simp add: example_client_def)
  have rc: "(0::int) \<le> 0" by simp
  have n: "next_bev (detecting_state []) = 1" by (simp add: detecting_state_def)
  have c: "(detecting_state [])\<lparr>bevs := (bevs (detecting_state []))(0 := None),
        closed_fds := (if 0 \<le> be_fd (example_client []) then
           be_fd (example_client []) # closed_fds (detecting_state [])
           else closed_fds (detecting_state []))\<rparr>
      = (detecting_state [])\<lparr>bevs := Map.empty, closed_fds := [5]\<rparr>"
    by (simp add: detecting_state_def example_client_def)
  note t = detection_timeout_like_read [OF h, of "0x41" example_config 0]
  note d = detection_timeout_like_read [OF h, of "0x11" example_config 0]
  from t have t1: "dispatch example_config 0 (detecting_state []) (Event 0 0x41)
     = dispatch example_config 0 (detecting_state []) (Readable 0 [])"
    using example_flags(3) by blast
  from t have t2: "\<exists>s'. dispatch example_config 0 (detecting_state []) (Event 0 0x41) = Some s' \<and>
         (\<exists>k. bevs s' 1 = Some k \<and> be_port k = Some 22)"
    using example_flags(3) e rc unfolding n example_ports by blast
  from d have d3: "dispatch example_config 0 (detecting_state []) (Event 0 0x11)
     = Some ((detecting_state [])\<lparr>bevs := Map.empty, closed_fds := [5]\<rparr>)"
    using example_flags(4) unfolding c by blast
  show ?thesis
    using h e t1 t2 d3 example_flags(3,4) by blast
qed

text \<open>
  C9. The comparison looks at the first extent of the input buffer only. When that extent
  is shorter than \<open>knock_size\<close> (so a matching knock would be split over several
  extents), the connection goes to the normal port and the buffer is left as it is.
  Conversely a connection goes to another port than the normal one only when the peek
  reports one extent, that extent holds at least \<open>knock_size\<close> bytes and its first
  \<open>knock_size\<close> bytes equal those of the knock.
\<close>

theorem knock_needs_one_extent:
  assumes "bevs s b = Some be" and "b < next_bev s" and "0 \<le> rc"
  shows "(be_input be \<noteq> [] \<longrightarrow> length (hd (be_input be)) < knock_size cfg \<longrightarrow>
            (\<exists>s'. initial_read cfg rc s b ctx = Some s' \<and>
               (\<exists>k. bevs s' (next_bev s) = Some k \<and>
                    be_port k = Some (htons (normal_port cfg))) \<and>
               (\<exists>c. bevs s' b = Some c \<and> be_input c = be_input be))) \<and>
         (\<forall>s' k. initial_read cfg rc s b ctx = Some s' \<longrightarrow>
            bevs s' (next_bev s) = Some k \<longrightarrow>
            be_port k \<noteq> Some (htons (normal_port cfg)) \<longrightarrow>
              fst (evbuffer_peek (be_input be) (int (knock_size cfg)) 1) = 1 \<and>
              be_input be \<noteq> [] \<and> knock_size cfg \<le> length (hd (be_input be)) \<and>
              take (knock_size cfg) (hd (be_input be))
                = take (knock_size cfg) (knock_value cfg))"
proof (intro conjI impI allI)
  from assms(2) have ne: "b \<noteq> next_bev s" by simp
  {
    assume "be_input be \<noteq> []" "length (hd (be_input be)) < knock_size cfg"
    then have dec: "knock_decision cfg (be_input be) = Some (normal_port cfg, be_input be)"
      by (simp add: knock_decision_short)
    show "\<exists>s'. initial_read cfg rc s b ctx = Some s' \<and>
               (\<exists>k. bevs s' (next_bev s) = Some k \<and>
                    be_port k = Some (htons (normal_port cfg))) \<and>
               (\<exists>c. bevs s' b = Some c \<and> be_input c = be_input be)"
      using ne by (simp add: initial_read_routed [OF assms(1) ne assms(3) dec])
  }
  fix s' k
  assume run: "initial_read cfg rc s b ctx = Some s'"
    and k: "bevs s' (next_bev s) = Some k"
    and port: "be_port k \<noteq> Some (htons (normal_port cfg))"
  from run assms(1) obtain p inp where dec: "knock_decision cfg (be_input be) = Some (p, inp)"
    by (cases "knock_decision cfg (be_input be)") (auto simp: initial_read_def)
  from run k port initial_read_routed [OF assms(1) ne assms(3) dec, of ctx]
  have "p \<noteq> normal_port cfg" by auto
  then have "(p, inp) \<noteq> (normal_port cfg, be_input be)" by simp
  from knock_decision_hidden_only [OF dec this]
  show "fst (evbuffer_peek (be_input be) (int (knock_size cfg)) 1) = 1"
    and "be_input be \<noteq> []"
    and "knock_size cfg \<le> length (hd (be_input be))"
    and "take (knock_size cfg) (hd (be_input be)) = take (knock_size cfg) (knock_value cfg)"
    by simp_all
qed

theorem knock_needs_one_extent_witness:
  "bevs (detecting_state [[0xDE, 0xAD], [0xBE, 0xEF, 0x68]]) 0
     = Some (example_client [[0xDE, 0xAD], [0xBE, 0xEF, 0x68]]) \<and>
   0 < next_bev (detecting_state [[0xDE, 0xAD], [0xBE, 0xEF, 0x68]]) \<and>
   length (hd [[0xDE, 0xAD], [0xBE, 0xEF, 0x68 :: byte]]) < knock_size example_config \<and>
   take (knock_size example_config) (concat [[0xDE, 0xAD], [0xBE, 0xEF, 0x68]])
     = knock_value example_config \<and>
   (\<exists>s'. initial_read example_config 0 (detecting_state [[0xDE, 0xAD], [0xBE, 0xEF, 0x68]])
            0 ARG_base = Some s' \<and>
         (\<exists>k. bevs s' 1 = Some k \<and> be_port k = Some 22) \<and>
         (\<exists>c. bevs s' 0 = Some c \<and> be_input c = [[0xDE, 0xAD], [0xBE, 0xEF, 0x68]])) \<and>
   (\<exists>s' k. initial_read example_config 0 (detecting_state [[0xDE, 0xAD, 0xBE, 0xEF, 0x68]])
            0 ARG_base = Some s' \<and>
         bevs s' 1 = Some k \<and> be_port k = Some 2222 \<and>
         fst (evbuffer_peek [[0xDE, 0xAD, 0xBE, 0xEF, 0x68]]
                (int (knock_size example_config)) 1) = 1 \<and>
         knock_size example_config \<le> length (hd [[0xDE, 0xAD, 0xBE, 0xEF, 0x68 :: byte]]) \<and>
         take (knock_size example_config) (hd [[0xDE, 0xAD, 0xBE, 0xEF, 0x68]])
           = take (knock_size example_config) (knock_value example_config))"
proof -
  let ?split = "[[0xDE, 0xAD], [0xBE, 0xEF, 0x68]] :: evbuffer"
  let ?whole = "[[0xDE, 0xAD, 0xBE, 0xEF, 0x68]] :: evbuffer"
  have a1: "bevs (detecting_state ?split) 0 = Some (example_client ?split)"
    and a2: "0 < next_bev (detecting_state ?split)"
    and b1: "bevs (detecting_state ?whole) 0 = Some (example_client ?whole)"
    and b2: "0 < next_bev (detecting_state ?whole)"
    and n: "next_bev (detecting_state ?split) = 1" "next_bev (detecting_state ?whole) = 1"
    and i: "be_input (example_client ?split) = ?split" "be_input (example_client ?whole) = ?whole"
    by (simp_all add: detecting_state_def example_client_def)
  have rc: "(0::int) \<le> 0" by simp
  have short: "length (hd ?split) < knock_size example_config"
    and pre: "take (knock_size example_config) (concat ?split) = knock_value example_config"
    by (simp_all add: example_config_def)
  note split = knock_needs_one_extent [OF a1 a2 rc, of example_config ARG_base, THEN conjunct1,
      unfolded i n example_ports, rule_format]
  have first: "\<exists>s'. initial_read example_config 0 (detecting_state ?split) 0 ARG_base = Some s' \<and>
         (\<exists>k. bevs s' 1 = Some k \<and> be_port k = Some 22) \<and>
         (\<exists>c. bevs s' 0 = Some c \<and> be_input c = ?split)"
    by (rule split) (simp_all add: example_config_def)
  have ne: "(0::nat) \<noteq> next_bev (detecting_state ?whole)" using b2 by simp
  have dec: "knock_decision example_config (be_input (example_client ?whole))
      = Some (2222, [[0x68]])"
    unfolding i by (rule example_decisions)
  note r = initial_read_routed [OF b1 ne rc dec, of ARG_base]
  obtain s' where s': "initial_read example_config 0 (detecting_state ?whole) 0 ARG_base = Some s'"
    using r by simp
  have "\<exists>k. bevs s' 1 = Some k \<and> be_port k = Some 2222"
    using s' unfolding r by (auto simp: n htons_def)
  then obtain k where k: "bevs s' 1 = Some k" "be_port k = Some 2222" by blast
  have port: "be_port k \<noteq> Some 22" using k by simp
  note whole = knock_needs_one_extent [OF b1 b2 rc, of example_config ARG_base, THEN conjunct2,
      unfolded i n example_ports, rule_format, OF s' k(1) port]
  show ?thesis
    using a1 a2 short pre first s' k whole by blast
qed

text \<open>
  C10. With \<open>knock_size = 0\<close> the peek reports no extent, so every client, whatever
  it has buffered, is connected to the normal port with its buffer left as it is; the
  timeout event takes the same route as the readiness event.
\<close>

theorem knock_size_zero_routes_normal:
  assumes "knock_size cfg = 0" and "bevs s b = Some be" and "b < next_bev s" and "0 \<le> rc"
  shows "fst (evbuffer_peek (be_input be) (int (knock_size cfg)) 1) = 0 \<and>
         (\<exists>s'. initial_read cfg rc s b ctx = Some s' \<and>
            (error AND BEV_EVENT_TIMEOUT \<noteq> 0 \<longrightarrow>
               initial_error cfg rc s b error ctx = Some s') \<and>
            (\<exists>k. bevs s' (next_bev s) = Some k \<and>
                 be_port k = Some (htons (normal_port cfg)) \<and>
                 be_eventcb k = ECB_back_connection \<and> be_cbarg k = ARG_bev b) \<and>
            (\<exists>c. bevs s' b = Some c \<and> be_input c = be_input be))"
proof -
  have peek: "fst (evbuffer_peek (be_input be) (int (knock_size cfg)) 1) = 0"
    using assms(1) by (simp add: evbuffer_peek_zero)
  have dec: "knock_decision cfg (be_input be) = Some (normal_port cfg, be_input be)"
    using assms(1) by (simp add: knock_decision_short)
  from assms(3) have ne: "b \<noteq> next_bev s" by simp
  note r = initial_read_routed [OF assms(2) ne assms(4) dec, of ctx]
  show ?thesis
    using peek ne by (simp add: r initial_error_def)
qed

theorem knock_size_zero_routes_normal_witness:
  "knock_size (example_config\<lparr>knock_size := 0\<rparr>) = 0 \<and>
   bevs (detecting_state [[0xDE, 0xAD, 0xBE, 0xEF, 0x68]]) 0 =
     Some (example_client [[0xDE, 0xAD, 0xBE, 0xEF, 0x68]]) \<and>
   0 < next_bev (detecting_state [[0xDE, 0xAD, 0xBE, 0xEF, 0x68]]) \<and>
   BEV_EVENT_TIMEOUT AND BEV_EVENT_TIMEOUT \<noteq> 0 \<and>
   (\<exists>s'. initial_read (example_config\<lparr>knock_size := 0\<rparr>) 0
            (detecting_state [[0xDE, 0xAD, 0xBE, 0xEF, 0x68]]) 0 ARG_base = Some s' \<and>
         initial_error (example_config\<lparr>knock_size := 0\<rparr>) 0
            (detecting_state [[0xDE, 0xAD, 0xBE, 0xEF, 0x68]]) 0 BEV_EVENT_TIMEOUT ARG_base
           = Some s' \<and>
         (\<exists>k. bevs s' 1 = Some k \<and> be_port k = Some 22) \<and>
         (\<exists>c. bevs s' 0 = Some c \<and> be_input c = [[0xDE, 0xAD, 0xBE, 0xEF, 0x68]]))"
proof -
  let ?cfg = "example_config\<lparr>knock_size := 0\<rparr>"
  let ?inp = "[[0xDE, 0xAD, 0xBE, 0xEF, 0x68]] :: evbuffer"
  have h1: "knock_size ?cfg = 0" by simp
  have h2: "bevs (detecting_state ?inp) 0 = Some (example_client ?inp)"
    by (simp add: detecting_state_def)
  have h3: "0 < next_bev (detecting_state ?inp)" by (simp add: detecting_state_def)
  have h4: "(0::int) \<le> 0" by simp
  have t: "BEV_EVENT_TIMEOUT AND BEV_EVENT_TIMEOUT \<noteq> 0"
    by (simp add: BEV_EVENT_TIMEOUT_def)
  have p: "htons (normal_port ?cfg) = 22" by (simp add: htons_def example_config_def)
  have n: "next_bev (detecting_state ?inp) = 1" by (simp add: detecting_state_def)
  have i: "be_input (example_client ?inp) = ?inp" by (simp add: example_client_def)
  from knock_size_zero_routes_normal [OF h1 h2 h3 h4, of ARG_base BEV_EVENT_TIMEOUT] t
  show ?thesis unfolding p n i using h1 h2 h3 by blast
qed

section \<open>The back connection\<close>

text \<open>
  C7. When the connect call fails at once (\<open>rc < 0\<close>), \<open>initial_read\<close> ends with the
  new backend bufferevent and the client both freed and the client's descriptor closed.
  When the connection is started and the failure comes later as an error event, the
  backend bufferevent has nothing in its output and nothing written at that moment, and
  the event leaves the very same state: both freed, the client's descriptor closed. In
  that state one bufferevent was created and no other (no retry, no second backend), every
  other bufferevent is as before, and events for the two freed endpoints change nothing.
\<close>

theorem connect_failure_frees_both:
  assumes "bevs s b = Some be" and "b < next_bev s"
    and "knock_size cfg \<le> length (knock_value cfg)"
  defines "failed \<equiv>
     s\<lparr>bevs := (bevs s)(b := None, next_bev s := None), next_bev := Suc (next_bev s),
       closed_fds := (if 0 \<le> be_fd be then be_fd be # closed_fds s else closed_fds s)\<rparr>"
  shows "(rc < 0 \<longrightarrow> initial_read cfg rc s b ctx = Some failed) \<and>
         (0 \<le> rc \<longrightarrow> events AND BEV_EVENT_CONNECTED = 0 \<longrightarrow> events AND BEV_EVENT_ERROR \<noteq> 0 \<longrightarrow>
            (\<exists>s1 k. initial_read cfg rc s b ctx = Some s1 \<and>
               bevs s1 (next_bev s) = Some k \<and> be_output k = [] \<and> be_sent k = [] \<and>
               dispatch cfg rc' s1 (Event (next_bev s) events) = Some failed)) \<and>
         (\<forall>es. (\<forall>e\<in>set es. target e = b \<or> target e = next_bev s) \<longrightarrow>
            run cfg rc' failed es = Some failed)"
proof (intro conjI impI allI)
  from assms(2) have ne: "b \<noteq> next_bev s" by simp
  obtain port inp where dec: "knock_decision cfg (be_input be) = Some (port, inp)"
    using knock_decision_cases [OF assms(3), of "be_input be"] by (metis prod.collapse)
  {
    assume "rc < 0"
    from initial_read_connect_failed [OF assms(1) ne this dec]
    show "initial_read cfg rc s b ctx = Some failed"
      by (simp add: failed_def)
  }
  {
    assume rc: "0 \<le> rc" and nc: "events AND BEV_EVENT_CONNECTED = 0"
      and er: "events AND BEV_EVENT_ERROR \<noteq> 0"
    note r = initial_read_routed [OF assms(1) ne rc dec, of ctx]
    let ?c = "be\<lparr>be_input := inp, be_watermark := (0, MAX_RECV_BUF_DEFAULT),
                         be_read_enabled := False,
                         be_timeout_read := None, be_timeout_write := None,
                         be_readcb := RCB_NULL, be_eventcb := ECB_pipe_error,
                         be_cbarg := ARG_NULL\<rparr>"
    let ?k = "(new_bufferevent (- 1))
                         \<lparr>be_readcb := RCB_NULL, be_eventcb := ECB_back_connection,
                          be_cbarg := ARG_bev b, be_port := Some (htons port)\<rparr>"
    let ?s1 = "s\<lparr>bevs := (bevs s)(b \<mapsto> ?c, next_bev s \<mapsto> ?k),
                 next_bev := Suc (next_bev s)\<rparr>"
    have k: "bevs ?s1 (next_bev s) = Some ?k" "be_output ?k = []" "be_sent ?k = []"
      by (simp_all add: new_bufferevent_def)
    have c: "bevs ?s1 b = Some ?c" using ne by simp
    have bc: "back_connection cfg s' (next_bev s) events (ARG_bev b) = Some failed"
      if "s' = ?s1 \<or> s' = ?s1\<lparr>bevs := (bevs ?s1)(next_bev s \<mapsto> ?k\<lparr>be_read_enabled := False\<rparr>)\<rparr>"
      for s'
      using that ne nc er
      by (auto simp: back_connection_def prim_defs failed_def new_bufferevent_def fun_upd_twist)
    have "dispatch cfg rc' ?s1 (Event (next_bev s) events) = Some failed"
      using bc by (simp add: run_eventcb_def bufferevent_disable_def upd_bev_def)
    with r k show "\<exists>s1 k. initial_read cfg rc s b ctx = Some s1 \<and>
               bevs s1 (next_bev s) = Some k \<and> be_output k = [] \<and> be_sent k = [] \<and>
               dispatch cfg rc' s1 (Event (next_bev s) events) = Some failed"
      by blast
  }
  fix es
  assume "\<forall>e\<in>set es. target e = b \<or> target e = next_bev s"
  then have "\<forall>e\<in>set es. bevs failed (target e) = None"
    by (auto simp: failed_def)
  then show "run cfg rc' failed es = Some failed"
    by (rule run_freed)
qed

theorem connect_failure_frees_both_witness:
  "bevs (detecting_state [[0x61]]) 0 = Some (example_client [[0x61]]) \<and>
   0 < next_bev (detecting_state [[0x61]]) \<and>
   knock_size example_config \<le> length (knock_value example_config) \<and>
   (- 1 :: int) < 0 \<and>
   initial_read example_config (- 1) (detecting_state [[0x61]]) 0 ARG_base =
     Some \<lparr>bevs = Map.empty, ctxs = Map.empty, next_bev = 2, next_ctx = 0,
            closed_fds = [5]\<rparr> \<and>
   BEV_EVENT_ERROR AND BEV_EVENT_CONNECTED = 0 \<and>
   BEV_EVENT_ERROR AND BEV_EVENT_ERROR \<noteq> 0 \<and>
   (\<exists>s1 k. initial_read example_config 0 (detecting_state [[0x61]]) 0 ARG_base = Some s1 \<and>
      bevs s1 1 = Some k \<and> be_output k = [] \<and> be_sent k = [] \<and>
      dispatch example_config 0 s1 (Event 1 BEV_EVENT_ERROR) =
        Some \<lparr>bevs = Map.empty, ctxs = Map.empty, next_bev = 2, next_ctx = 0,
               closed_fds = [5]\<rparr>) \<and>
   run example_config 0
     \<lparr>bevs = Map.empty, ctxs = Map.empty, next_bev = 2, next_ctx = 0, closed_fds = [5]\<rparr>
     [Readable 0 [[0x61]], Event 1 BEV_EVENT_ERROR, Written 1 1] =
     Some \<lparr>bevs = Map.empty, ctxs = Map.empty, next_bev = 2, next_ctx = 0,
            closed_fds = [5]\<rparr>"
proof -
  let ?s = "detecting_state [[0x61]]"
  let ?failed = "\<lparr>bevs = Map.empty, ctxs = Map.empty, next_bev = 2, next_ctx = 0,
            closed_fds = [5]\<rparr> :: state"
  have h: "bevs ?s 0 = Some (example_client [[0x61]])" "0 < next_bev ?s"
    "knock_size example_config \<le> length (knock_value example_config)"
    by (simp_all add: detecting_state_def example_config_def)
  have n: "next_bev ?s = 1" by (simp add: detecting_state_def)
  have f: "?s\<lparr>bevs := (bevs ?s)(0 := None, next_bev ?s := None), next_bev := Suc (next_bev ?s),
       closed_fds := (if 0 \<le> be_fd (example_client [[0x61]])
                      then be_fd (example_client [[0x61]]) # closed_fds ?s
                      else closed_fds ?s)\<rparr> = ?failed"
    by (simp add: detecting_state_def example_client_def numeral_2_eq_2 [symmetric])
  have neg: "(- 1 :: int) < 0" and rc: "(0::int) \<le> 0" by simp_all
  note sync = connect_failure_frees_both [OF h, of "- 1" ARG_base, THEN conjunct1,
      unfolded f, rule_format, OF neg]
  note async = connect_failure_frees_both [OF h, of 0 ARG_base BEV_EVENT_ERROR 0,
      THEN conjunct2, THEN conjunct1, unfolded f, unfolded n, rule_format,
      OF rc example_flags(7) example_flags(8)]
  have evs: "\<forall>e\<in>set [Readable 0 [[0x61]], Event 1 BEV_EVENT_ERROR, Written 1 1].
          target e = 0 \<or> target e = next_bev ?s"
    by (simp add: n)
  note quiet = connect_failure_frees_both [OF h, of 0 ARG_base BEV_EVENT_ERROR 0,
      THEN conjunct2, THEN conjunct2, unfolded f, THEN spec, THEN mp, OF evs]
  show ?thesis
    using h neg sync async quiet example_flags(7) example_flags(8) by blast
qed

section \<open>The pipe\<close>

text \<open>
  C2. On an active link, for an event on endpoint \<open>a\<close> that carries the timeout flag:
  when the record of \<open>a\<close> does not say that \<open>b\<close> timed out, the event changes one
  thing only, the flag in the record of \<open>b\<close> that says \<open>a\<close> timed out; nothing is
  freed, the link stays active and \<open>a\<close> is reading again. When the record of \<open>a\<close>
  says that \<open>b\<close> timed out, \<open>a\<close> is freed and \<open>b\<close> is left draining. A readiness
  event on \<open>a\<close> clears the flag that says \<open>a\<close> timed out and leaves the other flag.
  Over any sequence of events on the two endpoints that leaves the link active, a
  timeout of \<open>a\<close> then frees \<open>a\<close> exactly when the last readiness or timeout event of
  \<open>b\<close> was a timeout: both ends timed out, and the one that did so first has not read
  since.
\<close>

theorem timeout_corroboration:
  assumes "link_active s a b ca cb" and "error AND BEV_EVENT_TIMEOUT \<noteq> 0"
  shows "(\<not> timed_out s ca \<longrightarrow>
            (\<exists>y s'. ctxs s cb = Some y \<and>
               s' = s\<lparr>ctxs := (ctxs s)(cb \<mapsto> y\<lparr>other_timedout := True\<rparr>)\<rparr> \<and>
               dispatch cfg rc s (Event a error) = Some s' \<and>
               link_active s' a b ca cb \<and> reading s' a \<and> timed_out s' cb)) \<and>
         (timed_out s ca \<longrightarrow>
            (\<exists>s'. dispatch cfg rc s (Event a error) = Some s' \<and>
               bevs s' a = None \<and> link_draining s' b a cb ca)) \<and>
         (\<exists>s'. dispatch cfg rc s (Readable a data) = Some s' \<and> link_active s' a b ca cb \<and>
               \<not> timed_out s' cb \<and> timed_out s' ca = timed_out s ca) \<and>
         (\<forall>es s'. (\<forall>e\<in>set es. target e = a \<or> target e = b) \<longrightarrow>
            run cfg rc s es = Some s' \<longrightarrow> link_active s' a b ca cb \<longrightarrow>
              timed_out s' cb = timeout_pending a (timed_out s cb) es \<and>
              timed_out s' ca = timeout_pending b (timed_out s ca) es \<and>
              (\<exists>s''. dispatch cfg rc s' (Event a error) = Some s'' \<and>
                 (bevs s'' a = None \<longleftrightarrow> timeout_pending b (timed_out s ca) es)))"
proof (intro conjI impI allI)
  assume nt: "\<not> timed_out s ca"
  from active_timeout_first [OF assms nt, of cfg rc]
  obtain y where y: "ctxs s cb = Some y"
    "dispatch cfg rc s (Event a error) =
       Some (s\<lparr>ctxs := (ctxs s)(cb \<mapsto> y\<lparr>other_timedout := True\<rparr>)\<rparr>)"
    "link_active (s\<lparr>ctxs := (ctxs s)(cb \<mapsto> y\<lparr>other_timedout := True\<rparr>)\<rparr>) a b ca cb"
    by blast
  then show "\<exists>y s'. ctxs s cb = Some y \<and>
               s' = s\<lparr>ctxs := (ctxs s)(cb \<mapsto> y\<lparr>other_timedout := True\<rparr>)\<rparr> \<and>
               dispatch cfg rc s (Event a error) = Some s' \<and>
               link_active s' a b ca cb \<and> reading s' a \<and> timed_out s' cb"
    by (simp add: link_active_def timed_out_def)
next
  assume t: "timed_out s ca"
  then have "error AND BEV_EVENT_TIMEOUT = 0 \<or> timed_out s ca" by simp
  from active_close [OF assms(1) this, of cfg rc]
  obtain s' where "dispatch cfg rc s (Event a error) = Some s'" "link_draining s' b a cb ca"
    by blast
  then show "\<exists>s'. dispatch cfg rc s (Event a error) = Some s' \<and>
               bevs s' a = None \<and> link_draining s' b a cb ca"
    by (auto simp: link_draining_def)
next
  from active_readable [OF assms(1), of cfg rc data]
  show "\<exists>s'. dispatch cfg rc s (Readable a data) = Some s' \<and> link_active s' a b ca cb \<and>
               \<not> timed_out s' cb \<and> timed_out s' ca = timed_out s ca"
    by blast
next
  fix es s'
  assume es: "\<forall>e\<in>set es. target e = a \<or> target e = b"
    and r: "run cfg rc s es = Some s'" and act: "link_active s' a b ca cb"
  note flags = active_flags_run [OF assms(1) es r act]
  from flags show "timed_out s' cb = timeout_pending a (timed_out s cb) es" by simp
  from flags show "timed_out s' ca = timeout_pending b (timed_out s ca) es" by simp
  show "\<exists>s''. dispatch cfg rc s' (Event a error) = Some s'' \<and>
          (bevs s'' a = None \<longleftrightarrow> timeout_pending b (timed_out s ca) es)"
  proof (cases "timed_out s' ca")
    case True
    then have "error AND BEV_EVENT_TIMEOUT = 0 \<or> timed_out s' ca" by simp
    from active_close [OF act this, of cfg rc]
    obtain s'' where "dispatch cfg rc s' (Event a error) = Some s''"
      "link_draining s'' b a cb ca"
      by blast
    with True flags show ?thesis by (auto simp: link_draining_def)
  next
    case False
    from active_timeout_first [OF act assms(2) False, of cfg rc]
    obtain s'' where "dispatch cfg rc s' (Event a error) = Some s''"
      "link_active s'' a b ca cb"
      by blast
    with False flags show ?thesis
      by (auto simp: link_active_def pipe_end_def split: option.splits)
  qed
qed

theorem timeout_corroboration_witness:
  "link_active (paired_state False) 0 1 0 1 \<and>
   (0x41 :: 16 word) AND BEV_EVENT_TIMEOUT \<noteq> 0 \<and>
   \<not> timed_out (paired_state False) 0 \<and>
   (\<exists>y s'. ctxs (paired_state False) 1 = Some y \<and>
      s' = (paired_state False)
             \<lparr>ctxs := (ctxs (paired_state False))(1 \<mapsto> y\<lparr>other_timedout := True\<rparr>)\<rparr> \<and>
      dispatch example_config 0 (paired_state False) (Event 0 0x41) = Some s' \<and>
      link_active s' 0 1 0 1 \<and> reading s' 0 \<and> timed_out s' 1) \<and>
   link_active (paired_state True) 0 1 0 1 \<and> timed_out (paired_state True) 0 \<and>
   (\<exists>s'. dispatch example_config 0 (paired_state True) (Event 0 0x41) = Some s' \<and>
      bevs s' 0 = None \<and> link_draining s' 1 0 1 0) \<and>
   (\<exists>s'. dispatch example_config 0 (paired_state True) (Readable 0 [[0x61]]) = Some s' \<and>
      link_active s' 0 1 0 1 \<and> \<not> timed_out s' 1 \<and> timed_out s' 0) \<and>
   run example_config 0 (paired_state False) [Event 1 0x41] = Some (paired_state True) \<and>
   timeout_pending 1 (timed_out (paired_state False) 0) [Event 1 0x41] \<and>
   \<not> timeout_pending 0 (timed_out (paired_state False) 1) [Event 1 0x41] \<and>
   (\<exists>s''. dispatch example_config 0 (paired_state True) (Event 0 0x41) = Some s'' \<and>
      bevs s'' 0 = None)"
proof -
  note f = timeout_corroboration [OF example_paired(1) example_flags(3),
      of False example_config 0 "[[0x61]]"]
  note t = timeout_corroboration [OF example_paired(1) example_flags(3),
      of True example_config 0 "[[0x61]]"]
  have nt: "\<not> timed_out (paired_state False) 0" and tt: "timed_out (paired_state True) 0"
    by (simp_all add: paired_state_def timed_out_def)
  have r: "run example_config 0 (paired_state False) [Event 1 0x41] = Some (paired_state True)"
    unfolding run.simps example_backend_timeout by simp
  have es: "\<forall>e\<in>set [Event 1 0x41]. target e = 0 \<or> target e = 1" by simp
  have p: "timeout_pending 1 (timed_out (paired_state False) 0) [Event 1 0x41]"
    "\<not> timeout_pending 0 (timed_out (paired_state False) 1) [Event 1 0x41]"
    by (simp_all add: example_flags paired_state_def timed_out_def)
  from f nt have first: "\<exists>y s'. ctxs (paired_state False) 1 = Some y \<and>
      s' = (paired_state False)
             \<lparr>ctxs := (ctxs (paired_state False))(1 \<mapsto> y\<lparr>other_timedout := True\<rparr>)\<rparr> \<and>
      dispatch example_config 0 (paired_state False) (Event 0 0x41) = Some s' \<and>
      link_active s' 0 1 0 1 \<and> reading s' 0 \<and> timed_out s' 1"
    by blast
  from t tt have second: "\<exists>s'. dispatch example_config 0 (paired_state True) (Event 0 0x41)
        = Some s' \<and> bevs s' 0 = None \<and> link_draining s' 1 0 1 0"
    by blast
  from t tt have third: "\<exists>s'. dispatch example_config 0 (paired_state True)
        (Readable 0 [[0x61]]) = Some s' \<and>
      link_active s' 0 1 0 1 \<and> \<not> timed_out s' 1 \<and> timed_out s' 0"
    by blast
  from f [THEN conjunct2, THEN conjunct2, THEN conjunct2, THEN spec, THEN spec, THEN mp,
      THEN mp, THEN mp, OF es r example_paired(1)] p
  have fourth: "\<exists>s''. dispatch example_config 0 (paired_state True) (Event 0 0x41) = Some s'' \<and>
      bevs s'' 0 = None"
    by blast
  from example_paired(1) [of False] example_paired(1) [of True] example_flags(3) nt tt
    first second third r p fourth
  show ?thesis by blast
qed

text \<open>
  C3. From the moment \<open>back_connection\<close> pairs a client and a backend, every sequence of
  events on the two endpoints runs to the end without touching a freed bufferevent or a
  freed record (such an access has no result in the model), whichever side closes first.
  After each event the pair is active, or one endpoint lives on with both pointers of
  its record \<open>NULL\<close> while the other endpoint and its record are freed, or all four are
  freed.
\<close>

theorem survivor_never_touches_freed_peer:
  assumes "cl \<noteq> bk" and "bevs s cl = Some c" and "bevs s bk = Some k"
    and "events AND BEV_EVENT_CONNECTED \<noteq> 0"
    and "\<forall>e\<in>set es. target e = cl \<or> target e = bk"
  shows "\<exists>s0 s'. back_connection cfg s bk events (ARG_bev cl) = Some s0 \<and>
           link_active s0 cl bk (next_ctx s) (Suc (next_ctx s)) \<and>
           run cfg rc s0 es = Some s' \<and>
           link_inv s' cl bk (next_ctx s) (Suc (next_ctx s))"
proof -
  from paired_active [OF assms(1-4), of cfg]
  obtain s0 where s0: "back_connection cfg s bk events (ARG_bev cl) = Some s0"
    "link_active s0 cl bk (next_ctx s) (Suc (next_ctx s))"
    by blast
  then have "link_inv s0 cl bk (next_ctx s) (Suc (next_ctx s))"
    by (simp add: link_inv_def)
  from inv_run [OF this assms(5), of cfg rc]
  obtain s' where "run cfg rc s0 es = Some s'"
    "link_inv s' cl bk (next_ctx s) (Suc (next_ctx s))"
    by blast
  with s0 show ?thesis by blast
qed

theorem survivor_never_touches_freed_peer_witness:
  "(0::nat) \<noteq> 1 \<and>
   (\<exists>c k. bevs (connecting_state [[0x61]]) 0 = Some c \<and>
          bevs (connecting_state [[0x61]]) 1 = Some k) \<and>
   BEV_EVENT_CONNECTED AND BEV_EVENT_CONNECTED \<noteq> 0 \<and>
   (\<exists>s0 s'.
      back_connection example_config (connecting_state [[0x61]]) 1 BEV_EVENT_CONNECTED
        (ARG_bev 0) = Some s0 \<and>
      link_active s0 0 1 0 1 \<and>
      run example_config 0 s0
        [Readable 0 [[0x62]], Event 1 0x11, Readable 0 [[0x63]], Written 0 1,
         Event 0 0x41, Event 1 0x41] = Some s' \<and>
      link_inv s' 0 1 0 1)"
proof -
  have ne: "(0::nat) \<noteq> 1" by simp
  have es: "\<forall>e\<in>set [Readable 0 [[0x62]], Event 1 0x11, Readable 0 [[0x63]], Written 0 1,
         Event 0 0x41, Event 1 0x41]. target e = 0 \<or> target e = 1"
    by simp
  note w = survivor_never_touches_freed_peer [OF ne example_connecting(1) [of "[[0x61]]"]
      example_connecting(2) [of "[[0x61]]"] example_flags(6) es,
      of example_config 0, unfolded example_connecting(3)]
  from w have "\<exists>s0 s'.
      back_connection example_config (connecting_state [[0x61]]) 1 BEV_EVENT_CONNECTED
        (ARG_bev 0) = Some s0 \<and>
      link_active s0 0 1 0 1 \<and>
      run example_config 0 s0
        [Readable 0 [[0x62]], Event 1 0x11, Readable 0 [[0x63]], Written 0 1,
         Event 0 0x41, Event 1 0x41] = Some s' \<and>
      link_inv s' 0 1 0 1"
    by simp
  with ne example_connecting(1,2) [of "[[0x61]]"] example_flags(6) show ?thesis by blast
qed

text \<open>
  C5, as the code has it. From the pairing on, over any sequence of events on the two
  endpoints, timeouts included: the bytes the client had buffered are the first ones in
  the backend's output, and whenever the sequence leaves the link active, that is both
  endpoints live, the bytes handed to the backend's socket (written or queued), followed
  by what still waits in the client's input, are what the backend held before, then the
  client's buffered bytes, then the bytes that arrived on the client, in order, each
  once; the same holds in the other direction; and a readiness event then moves the whole
  input of its endpoint to the end of the other endpoint's output. Readiness and write
  events alone always leave the link active.
\<close>

theorem pipe_delivers_in_order:
  assumes "cl \<noteq> bk" and "bevs s cl = Some c" and "bevs s bk = Some k"
    and "events AND BEV_EVENT_CONNECTED \<noteq> 0"
    and "\<forall>e\<in>set es. target e = cl \<or> target e = bk"
  shows "\<exists>s0 s'. back_connection cfg s bk events (ARG_bev cl) = Some s0 \<and>
           stream_out s0 bk = be_sent k @ concat (be_output k) @ concat (be_input c) \<and>
           pending_in s0 cl = [] \<and>
           run cfg rc s0 es = Some s' \<and>
           ((\<forall>e\<in>set es. is_data e) \<longrightarrow>
              link_active s' cl bk (next_ctx s) (Suc (next_ctx s))) \<and>
           (link_active s' cl bk (next_ctx s) (Suc (next_ctx s)) \<longrightarrow>
              stream_out s' bk @ pending_in s' cl
                = be_sent k @ concat (be_output k) @ concat (be_input c) @ received_on cl es \<and>
              stream_out s' cl @ pending_in s' bk
                = be_sent c @ concat (be_output c) @ concat (be_input k) @ received_on bk es \<and>
              (\<forall>data. \<exists>s2. dispatch cfg rc s' (Readable cl data) = Some s2 \<and>
                 pending_in s2 cl = [] \<and>
                 stream_out s2 bk = stream_out s' bk @ pending_in s' cl @ concat data) \<and>
              (\<forall>data. \<exists>s2. dispatch cfg rc s' (Readable bk data) = Some s2 \<and>
                 pending_in s2 bk = [] \<and>
                 stream_out s2 cl = stream_out s' cl @ pending_in s' bk @ concat data))"
proof -
  let ?ca = "next_ctx s" and ?cb = "Suc (next_ctx s)"
  from paired_active [OF assms(1-4), of cfg]
  obtain s0 where s0: "back_connection cfg s bk events (ARG_bev cl) = Some s0"
    "link_active s0 cl bk ?ca ?cb"
    "stream_out s0 bk = be_sent k @ concat (be_output k) @ concat (be_input c)"
    "pending_in s0 cl = []"
    "stream_out s0 cl = be_sent c @ concat (be_output c)"
    "pending_in s0 bk = concat (be_input k)"
    by blast
  from s0(2) have "link_inv s0 cl bk ?ca ?cb" by (simp add: link_inv_def)
  from inv_run [OF this assms(5), of cfg rc]
  obtain s' where s': "run cfg rc s0 es = Some s'" by blast
  have data: "(\<forall>e\<in>set es. is_data e) \<longrightarrow> link_active s' cl bk ?ca ?cb"
    using data_keeps_active [OF s0(2) assms(5) _ s'] by blast
  have live: "stream_out s' bk @ pending_in s' cl
        = be_sent k @ concat (be_output k) @ concat (be_input c) @ received_on cl es \<and>
      stream_out s' cl @ pending_in s' bk
        = be_sent c @ concat (be_output c) @ concat (be_input k) @ received_on bk es \<and>
      (\<forall>data. \<exists>s2. dispatch cfg rc s' (Readable cl data) = Some s2 \<and>
         pending_in s2 cl = [] \<and>
         stream_out s2 bk = stream_out s' bk @ pending_in s' cl @ concat data) \<and>
      (\<forall>data. \<exists>s2. dispatch cfg rc s' (Readable bk data) = Some s2 \<and>
         pending_in s2 bk = [] \<and>
         stream_out s2 cl = stream_out s' cl @ pending_in s' bk @ concat data)"
    if act: "link_active s' cl bk ?ca ?cb"
  proof -
    note run = active_stream_run [OF s0(2) assms(5) s' act]
    have fwd: "\<exists>s2. dispatch cfg rc s' (Readable cl data) = Some s2 \<and>
        pending_in s2 cl = [] \<and>
        stream_out s2 bk = stream_out s' bk @ pending_in s' cl @ concat data" for data
      using active_readable [OF act, of cfg rc data] by blast
    have bwd: "\<exists>s2. dispatch cfg rc s' (Readable bk data) = Some s2 \<and>
        pending_in s2 bk = [] \<and>
        stream_out s2 cl = stream_out s' cl @ pending_in s' bk @ concat data" for data
      using active_readable [OF link_active_sym [OF act], of cfg rc data] by blast
    have a: "stream_out s' bk @ pending_in s' cl
        = be_sent k @ concat (be_output k) @ concat (be_input c) @ received_on cl es"
      using run s0(3,4) by simp
    have b: "stream_out s' cl @ pending_in s' bk
        = be_sent c @ concat (be_output c) @ concat (be_input k) @ received_on bk es"
      using run s0(5,6) by simp
    from a b fwd bwd show ?thesis by blast
  qed
  from s0(1,3,4) s' data live show ?thesis by blast
qed

theorem pipe_delivers_in_order_witness:
  "(0::nat) \<noteq> 1 \<and>
   (\<exists>c k. bevs (connecting_state [[0x68]]) 0 = Some c \<and>
          bevs (connecting_state [[0x68]]) 1 = Some k) \<and>
   BEV_EVENT_CONNECTED AND BEV_EVENT_CONNECTED \<noteq> 0 \<and>
   (0x41 :: 16 word) AND BEV_EVENT_TIMEOUT \<noteq> 0 \<and>
   (\<exists>s0 s'.
      back_connection example_config (connecting_state [[0x68]]) 1 BEV_EVENT_CONNECTED
        (ARG_bev 0) = Some s0 \<and>
      stream_out s0 1 = [0x68] \<and> pending_in s0 0 = [] \<and>
      run example_config 0 s0 [Readable 0 [[0x61]], Event 0 0x41, Readable 0 [[0x62]]]
        = Some s' \<and>
      link_active s' 0 1 0 1 \<and>
      stream_out s' 1 @ pending_in s' 0 = [0x68, 0x61, 0x62] \<and>
      stream_out s' 0 @ pending_in s' 1 = [])"
proof -
  let ?es = "[Readable 0 [[0x61]], Event 0 0x41, Readable 0 [[0x62]]]"
  have ne: "(0::nat) \<noteq> 1" by simp
  have es: "\<forall>e\<in>set ?es. target e = 0 \<or> target e = 1" by simp
  note c = example_connecting(1) [of "[[0x68]]"]
  note k = example_connecting(2) [of "[[0x68]]"]
  from paired_active [OF ne c k example_flags(6), of example_config,
      unfolded example_connecting(3)]
  obtain s0 where s0:
    "back_connection example_config (connecting_state [[0x68]]) 1 BEV_EVENT_CONNECTED
       (ARG_bev 0) = Some s0"
    "link_active s0 0 (Suc 0) 0 (Suc 0)" "\<not> timed_out s0 0"
    by auto
  from active_readable [OF s0(2), of example_config 0 "[[0x61]]"] s0(3)
  obtain s1 where s1: "dispatch example_config 0 s0 (Readable 0 [[0x61]]) = Some s1"
    "link_active s1 0 (Suc 0) 0 (Suc 0)" "\<not> timed_out s1 0"
    by auto
  from active_timeout_first [OF s1(2) example_flags(3) s1(3), of example_config 0]
  obtain s2 where s2: "dispatch example_config 0 s1 (Event 0 0x41) = Some s2"
    "link_active s2 0 (Suc 0) 0 (Suc 0)"
    by blast
  from active_readable [OF s2(2), of example_config 0 "[[0x62]]"]
  obtain s3 where s3: "dispatch example_config 0 s2 (Readable 0 [[0x62]]) = Some s3"
    "link_active s3 0 (Suc 0) 0 (Suc 0)"
    by blast
  have r: "run example_config 0 s0 ?es = Some s3"
    unfolding run.simps s1(1) by (simp add: s2(1) s3(1) del: dispatch.simps)
  from pipe_delivers_in_order [OF ne c k example_flags(6) es, of example_config 0,
      unfolded example_connecting(3)]
  obtain t0 t' where t:
    "back_connection example_config (connecting_state [[0x68]]) 1 BEV_EVENT_CONNECTED
       (ARG_bev 0) = Some t0"
    "stream_out t0 1 = [0x68]" "pending_in t0 0 = []"
    "run example_config 0 t0 ?es = Some t'"
    "link_active t' 0 1 0 1 \<longrightarrow>
       stream_out t' 1 @ pending_in t' 0 = [0x68, 0x61, 0x62] \<and>
       stream_out t' 0 @ pending_in t' 1 = []"
    by auto
  from t(1) s0(1) have t0: "t0 = s0" by simp
  with t(4) r have t': "t' = s3" by simp
  from s3(2) have act: "link_active s3 0 1 0 1" by simp
  from t(5) act have "stream_out s3 1 @ pending_in s3 0 = [0x68, 0x61, 0x62]"
    "stream_out s3 0 @ pending_in s3 1 = []"
    unfolding t' by simp_all
  with t(1-3) r act show ?thesis
    unfolding t0 using ne c k example_flags(6) example_flags(3) by blast
qed

text \<open>
  C5 as stated fails: a timeout is no error, and yet on a trace of one readiness event and
  timeouts only a byte is lost. The byte \<open>61\<close> arrives on the client and is queued for
  the backend; the backend times out, then the client times out and is freed, the
  backend keeping the byte in its output with nothing written; the next timeout of the
  backend frees it. Nothing is left, and the byte was never written to the backend's
  socket.
\<close>

theorem timeouts_drop_queued_byte_counterexample:
  "back_connection example_config (connecting_state []) 1 BEV_EVENT_CONNECTED (ARG_bev 0)
     = Some (paired_state False) \<and>
   (0x41 :: 16 word) AND BEV_EVENT_ERROR = 0 \<and> (0x41 :: 16 word) AND BEV_EVENT_EOF = 0 \<and>
   (0x42 :: 16 word) AND BEV_EVENT_ERROR = 0 \<and> (0x42 :: 16 word) AND BEV_EVENT_EOF = 0 \<and>
   received_on 0 [Readable 0 [[0x61]], Event 1 0x41, Event 0 0x41, Event 1 0x42] = [0x61] \<and>
   run example_config 0 (paired_state False)
     [Readable 0 [[0x61]], Event 1 0x41, Event 0 0x41] =
     Some \<lparr>bevs = Map.empty
             (1 \<mapsto> \<lparr>be_input = [], be_output = [[0x61]], be_sent = [], be_fd = - 1,
                     be_port = Some 22, be_nodelay = True, be_read_enabled = True,
                     be_watermark = (0, MAX_RECV_BUF_DEFAULT),
                     be_timeout_read = Some (1, 0), be_timeout_write = Some (1, 0),
                     be_readcb = RCB_pipe_read, be_eventcb = ECB_pipe_error,
                     be_cbarg = ARG_ctx 1\<rparr>),
           ctxs = Map.empty
             (1 \<mapsto> \<lparr>bev = None, pair = None, other_timedout = True\<rparr>),
           next_bev = 2, next_ctx = 2, closed_fds = [5]\<rparr> \<and>
   run example_config 0 (paired_state False)
     [Readable 0 [[0x61]], Event 1 0x41, Event 0 0x41, Event 1 0x42] =
     Some \<lparr>bevs = Map.empty, ctxs = Map.empty, next_bev = 2, next_ctx = 2,
            closed_fds = [5]\<rparr>"
proof -
  let ?s1 = "\<lparr>bevs = Map.empty
        (0 \<mapsto> \<lparr>be_input = [], be_output = [], be_sent = [], be_fd = 5, be_port = None,
                be_nodelay = False, be_read_enabled = True,
                be_watermark = (0, MAX_RECV_BUF_DEFAULT),
                be_timeout_read = Some (30, 0), be_timeout_write = None,
                be_readcb = RCB_pipe_read, be_eventcb = ECB_pipe_error,
                be_cbarg = ARG_ctx 0\<rparr>,
         1 \<mapsto> \<lparr>be_input = [], be_output = [[0x61]], be_sent = [], be_fd = - 1,
                be_port = Some 22, be_nodelay = True, be_read_enabled = True,
                be_watermark = (0, MAX_RECV_BUF_DEFAULT),
                be_timeout_read = Some (30, 0), be_timeout_write = None,
                be_readcb = RCB_pipe_read, be_eventcb = ECB_pipe_error,
                be_cbarg = ARG_ctx 1\<rparr>),
      ctxs = Map.empty
        (0 \<mapsto> \<lparr>bev = Some 1, pair = Some 1, other_timedout = False\<rparr>,
         1 \<mapsto> \<lparr>bev = Some 0, pair = Some 0, other_timedout = False\<rparr>),
      next_bev = 2, next_ctx = 2, closed_fds = []\<rparr> :: state"
  let ?s2 = "?s1\<lparr>ctxs := Map.empty
        (0 \<mapsto> \<lparr>bev = Some 1, pair = Some 1, other_timedout = True\<rparr>,
         1 \<mapsto> \<lparr>bev = Some 0, pair = Some 0, other_timedout = False\<rparr>)\<rparr>"
  let ?s3 = "\<lparr>bevs = Map.empty
             (1 \<mapsto> \<lparr>be_input = [], be_output = [[0x61]], be_sent = [], be_fd = - 1,
                     be_port = Some 22, be_nodelay = True, be_read_enabled = True,
                     be_watermark = (0, MAX_RECV_BUF_DEFAULT),
                     be_timeout_read = Some (1, 0), be_timeout_write = Some (1, 0),
                     be_readcb = RCB_pipe_read, be_eventcb = ECB_pipe_error,
                     be_cbarg = ARG_ctx 1\<rparr>),
           ctxs = Map.empty
             (1 \<mapsto> \<lparr>bev = None, pair = None, other_timedout = True\<rparr>),
           next_bev = 2, next_ctx = 2, closed_fds = [5]\<rparr> :: state"
  let ?s4 = "\<lparr>bevs = Map.empty, ctxs = Map.empty, next_bev = 2, next_ctx = 2,
            closed_fds = [5]\<rparr> :: state"
  have flags: "(0x41 :: 16 word) AND BEV_EVENT_ERROR = 0" "(0x41 :: 16 word) AND BEV_EVENT_EOF = 0"
    "(0x42 :: 16 word) AND BEV_EVENT_ERROR = 0" "(0x42 :: 16 word) AND BEV_EVENT_EOF = 0"
    by (simp_all add: BEV_EVENT_ERROR_def BEV_EVENT_EOF_def)
  have rcv: "received_on 0 [Readable 0 [[0x61]], Event 1 0x41, Event 0 0x41, Event 1 0x42]
      = [0x61]"
    by simp
  have pairing: "back_connection example_config (connecting_state []) 1 BEV_EVENT_CONNECTED
      (ARG_bev 0) = Some (paired_state False)"
    by (simp add: back_connection_def create_contexts_def prim_defs connecting_state_def
        paired_state_def evbuffer_add_buffer_def evbuffer_get_length_def example_config_def
        fun_upd_twist BEV_EVENT_CONNECTED_def Let_def numeral_2_eq_2 [symmetric])
  have step1: "dispatch example_config 0 (paired_state False) (Readable 0 [[0x61]]) = Some ?s1"
    by (simp add: paired_state_def run_readcb_def pipe_read_def prim_defs
        evbuffer_add_buffer_def evbuffer_get_length_def fun_upd_twist)
  have step2: "dispatch example_config 0 ?s1 (Event 1 0x41) = Some ?s2"
    by (simp add: run_eventcb_def pipe_error_def pipe_error_timeout_def prim_defs
        BEV_EVENT_TIMEOUT_def BEV_EVENT_READING_def fun_upd_twist)
  have step3: "dispatch example_config 0 ?s2 (Event 0 0x41) = Some ?s3"
    by (simp add: run_eventcb_def pipe_error_def pipe_error_timeout_def pipe_error_close_def
        prim_defs BEV_EVENT_TIMEOUT_def BEV_EVENT_READING_def fun_upd_twist)
  have step4: "dispatch example_config 0 ?s3 (Event 1 0x42) = Some ?s4"
    by (simp add: run_eventcb_def pipe_error_def pipe_error_timeout_def pipe_error_close_def
        prim_defs BEV_EVENT_TIMEOUT_def BEV_EVENT_READING_def fun_upd_twist)
  have run3: "run example_config 0 (paired_state False)
      [Readable 0 [[0x61]], Event 1 0x41, Event 0 0x41] = Some ?s3"
    using step1 step2 step3 by (simp del: dispatch.simps)
  have run4: "run example_config 0 (paired_state False)
      [Readable 0 [[0x61]], Event 1 0x41, Event 0 0x41, Event 1 0x42] = Some ?s4"
    using step1 step2 step3 step4 by (simp del: dispatch.simps)
  from pairing flags rcv run3 run4 show ?thesis by (simp only: simp_thms)
qed

text \<open>
  C6. On a joined pair, whether or not \<open>b\<close> is reading, an event on endpoint \<open>a\<close> that
  closes it (one without the timeout flag, or a timeout when the record of \<open>a\<close> says
  that \<open>b\<close> timed out) frees \<open>a\<close> and the record of \<open>a\<close>, sets both pointers of the
  record of \<open>b\<close> to \<open>NULL\<close>, and changes \<open>b\<close> in this only: its read and write
  timeouts are one second and reading is enabled. From then on readiness and write events
  leave \<open>b\<close> as the survivor, and after any sequence of events on the two endpoints the
  next event delivered to \<open>b\<close>, with whatever flags, leaves \<open>b\<close> and its record freed,
  so nothing of the link is left.
\<close>

theorem close_starts_grace_period:
  assumes "link_joined s a b ca cb"
    and "error AND BEV_EVENT_TIMEOUT = 0 \<or> timed_out s ca"
  shows "\<exists>s' x. dispatch cfg rc s (Event a error) = Some s' \<and>
           bevs s' a = None \<and> ctxs s' ca = None \<and>
           ctx_is s' cb None None \<and> pipe_end s' b cb \<and>
           bevs s b = Some x \<and>
           bevs s' b = Some (x\<lparr>be_timeout_read := Some (1, 0),
                               be_timeout_write := Some (1, 0),
                               be_read_enabled := True\<rparr>) \<and>
           (\<forall>es. (\<forall>e\<in>set es. is_data e \<and> (target e = a \<or> target e = b)) \<longrightarrow>
              (\<exists>s1. run cfg rc s' es = Some s1 \<and> link_draining s1 b a cb ca)) \<and>
           (\<forall>es flags. (\<forall>e\<in>set es. target e = a \<or> target e = b) \<longrightarrow>
              (\<exists>s''. run cfg rc s' (es @ [Event b flags]) = Some s'' \<and>
                 bevs s'' a = None \<and> bevs s'' b = None \<and>
                 ctxs s'' ca = None \<and> ctxs s'' cb = None))"
proof -
  from joined_close [OF assms, of cfg rc]
  obtain s' x where s': "dispatch cfg rc s (Event a error) = Some s'"
    "link_draining s' b a cb ca" "bevs s b = Some x"
    "bevs s' b = Some (x\<lparr>be_timeout_read := Some (1, 0), be_timeout_write := Some (1, 0),
                          be_read_enabled := True\<rparr>)"
    by blast
  have quiet: "\<exists>s1. run cfg rc s' es = Some s1 \<and> link_draining s1 b a cb ca"
    if "\<forall>e\<in>set es. is_data e \<and> (target e = a \<or> target e = b)" for es
  proof -
    from that have t: "\<forall>e\<in>set es. target e = a \<or> target e = b"
      and d: "\<forall>e\<in>set es. is_data e"
      by simp_all
    from s'(2) have "link_draining s' b a cb ca \<or> link_closed s' a b ca cb" by simp
    from survivor_run [OF this t, of cfg rc] d s'(2) show ?thesis by blast
  qed
  have after: "\<exists>s''. run cfg rc s' (es @ [Event b flags]) = Some s'' \<and>
              bevs s'' a = None \<and> bevs s'' b = None \<and>
              ctxs s'' ca = None \<and> ctxs s'' cb = None"
    if "\<forall>e\<in>set es. target e = a \<or> target e = b" for es flags
  proof -
    from survivor_freed_by_event [OF s'(2) that, of cfg rc flags]
    obtain s'' where "run cfg rc s' (es @ [Event b flags]) = Some s''"
      "link_closed s'' a b ca cb"
      by blast
    then show ?thesis unfolding link_closed_def by blast
  qed
  from s'(2) have "bevs s' a = None" "ctxs s' ca = None" "ctx_is s' cb None None"
    "pipe_end s' b cb"
    by (simp_all add: link_draining_def)
  with s' quiet after show ?thesis by blast
qed

theorem close_starts_grace_period_witness:
  "link_joined quiet_backend_state 0 1 0 1 \<and> \<not> reading quiet_backend_state 1 \<and>
   (0x11 :: 16 word) AND BEV_EVENT_TIMEOUT = 0 \<and>
   (\<exists>s' x. dispatch example_config 0 quiet_backend_state (Event 0 0x11) = Some s' \<and>
      bevs s' 0 = None \<and> ctxs s' 0 = None \<and> ctx_is s' 1 None None \<and> pipe_end s' 1 1 \<and>
      bevs quiet_backend_state 1 = Some x \<and>
      bevs s' 1 = Some (x\<lparr>be_timeout_read := Some (1, 0), be_timeout_write := Some (1, 0),
                          be_read_enabled := True\<rparr>) \<and>
      reading s' 1 \<and>
      (\<exists>s1. run example_config 0 s' [Readable 1 [[0x63]], Written 1 1] = Some s1 \<and>
         link_draining s1 1 0 1 0) \<and>
      (\<exists>s''. run example_config 0 s' ([Readable 1 [[0x63]], Written 1 1] @ [Event 1 0x41])
           = Some s'' \<and>
         bevs s'' 0 = None \<and> bevs s'' 1 = None \<and> ctxs s'' 0 = None \<and> ctxs s'' 1 = None))"
proof -
  have j: "link_joined quiet_backend_state 0 1 0 1"
    and nr: "\<not> reading quiet_backend_state 1"
    by (simp_all add: quiet_backend_state_def link_joined_def pipe_end_def ctx_is_def
        reading_def)
  have c: "(0x11 :: 16 word) AND BEV_EVENT_TIMEOUT = 0 \<or> timed_out quiet_backend_state 0"
    using example_flags(4) by simp
  have d: "\<forall>e\<in>set [Readable 1 [[0x63]], Written 1 1].
      is_data e \<and> (target e = 0 \<or> target e = 1)"
    by simp
  have t: "\<forall>e\<in>set [Readable 1 [[0x63]], Written 1 1]. target e = 0 \<or> target e = 1"
    by simp
  from close_starts_grace_period [OF j c, of example_config 0]
  obtain s' x where s': "dispatch example_config 0 quiet_backend_state (Event 0 0x11) = Some s'"
    "bevs s' 0 = None" "ctxs s' 0 = None" "ctx_is s' 1 None None" "pipe_end s' 1 1"
    "bevs quiet_backend_state 1 = Some x"
    "bevs s' 1 = Some (x\<lparr>be_timeout_read := Some (1, 0), be_timeout_write := Some (1, 0),
                          be_read_enabled := True\<rparr>)"
    "\<forall>es. (\<forall>e\<in>set es. is_data e \<and> (target e = 0 \<or> target e = 1)) \<longrightarrow>
       (\<exists>s1. run example_config 0 s' es = Some s1 \<and> link_draining s1 1 0 1 0)"
    "\<forall>es flags. (\<forall>e\<in>set es. target e = 0 \<or> target e = 1) \<longrightarrow>
       (\<exists>s''. run example_config 0 s' (es @ [Event 1 flags]) = Some s'' \<and>
          bevs s'' 0 = None \<and> bevs s'' 1 = None \<and> ctxs s'' 0 = None \<and> ctxs s'' 1 = None)"
    by blast
  from s'(7) have r: "reading s' 1" by (simp add: reading_def)
  from s'(8) d have q: "\<exists>s1. run example_config 0 s' [Readable 1 [[0x63]], Written 1 1]
      = Some s1 \<and> link_draining s1 1 0 1 0"
    by blast
  from s'(9) t
  have a: "\<exists>s''. run example_config 0 s' ([Readable 1 [[0x63]], Written 1 1] @ [Event 1 0x41])
      = Some s'' \<and>
      bevs s'' 0 = None \<and> bevs s'' 1 = None \<and> ctxs s'' 0 = None \<and> ctxs s'' 1 = None"
    by blast
  from j nr example_flags(4) s'(1-7) r q a show ?thesis by blast
qed

text \<open>
  The range of C3 starts at the pairing. Before it, \<open>initial_read\<close> has installed
  \<open>pipe_error\<close> on the client with a \<open>NULL\<close> record: were an event delivered to the
  client while the back connection is still under way, the callback would follow that
  pointer.
\<close>

lemma pipe_error_without_record:
  "pipe_error s b error ARG_NULL = None"
  by (simp add: pipe_error_def)

end
